theory Spec2Isabelle
  imports Main
begin

section \<open>NED: the editor state\<close>

text \<open>
  A shallow embedding of \<^verbatim>\<open>main.c\<close>. The global \<^verbatim>\<open>struct editor_config E\<close> is a
  record that every operation takes and returns.

  An \<^verbatim>\<open>editor_row\<close> is modelled by its content, the \<^verbatim>\<open>length\<close> bytes of \<^verbatim>\<open>chars\<close>:
  \<^verbatim>\<open>row->length\<close> is \<open>length row\<close>, and \<^verbatim>\<open>row->chars\<close> read as a C string (by \<^verbatim>\<open>%s\<close>) is the
  content up to its first NUL byte, since every row operation of the source keeps
  \<^verbatim>\<open>chars[length] = 0\<close>. The capacity bookkeeping is not modelled, and allocation is taken
  to succeed (the source calls \<^verbatim>\<open>die\<close> when it does not). \<^verbatim>\<open>E.rows\<close> is the list of rows
  and \<^verbatim>\<open>E.num_rows\<close> its length. A pointer \<^verbatim>\<open>&E.rows[i]\<close> is the index \<open>i\<close>.

  The \<^verbatim>\<open>int\<close> fields are \<open>int\<close>, a \<^verbatim>\<open>size_t\<close> is \<open>nat\<close>: the model covers the runs in which
  row lengths and row counts stay below \<^verbatim>\<open>INT_MAX\<close>, so that the casts of the source
  keep the value. A byte is a \<open>char\<close>, a key code an \<open>int\<close>.

  The terminal set-up (\<^verbatim>\<open>enable_raw_mode\<close>, \<^verbatim>\<open>disable_raw_mode\<close>, \<^verbatim>\<open>die\<close>) and the writes to
  the screen are outside the model, which takes the set-up to succeed.
\<close>

type_synonym editor_row = string

record editor_config =
  screen_rows :: int
  screen_cols :: int
  cursor_x :: int
  cursor_y :: int
  row_offset :: int
  col_offset :: int
  rows :: "editor_row list"
  filename :: string
  modified :: bool
  status_msg :: string

abbreviation num_rows :: "editor_config \<Rightarrow> int" where
  "num_rows E \<equiv> int (length (rows E))"

text \<open>
  The file system, as far as \<^verbatim>\<open>open_file\<close> and \<^verbatim>\<open>save_file\<close> see it: the bytes of each
  file that \<^verbatim>\<open>fopen(path, "r")\<close> can open; for each path that \<^verbatim>\<open>fopen(path, "w")\<close>
  cannot open, the text of \<^verbatim>\<open>strerror(errno)\<close>; and for each path on which writing
  fails (a full disk, an I/O error), the number of bytes that reach the file before the
  error.
\<close>

record filesystem =
  files :: "string \<rightharpoonup> string"
  fopen_w_error :: "string \<rightharpoonup> string"
  fwrite_limit :: "string \<rightharpoonup> nat"

text \<open>
  Standard input in raw mode with \<^verbatim>\<open>VMIN = 0\<close>, \<^verbatim>\<open>VTIME = 1\<close>: the outcomes of the
  successive one-byte \<^verbatim>\<open>read\<close> calls, \<open>Some c\<close> for a byte and \<open>None\<close> for a read that
  returned without one. Once the list is used up every read times out.
\<close>

type_synonym tty_input = "char option list"

text \<open>\<^verbatim>\<open>process_keypress\<close> either returns or calls \<^verbatim>\<open>exit\<close>.\<close>

datatype outcome =
  Running filesystem tty_input editor_config
| Exited int filesystem

section \<open>Row operations\<close>

definition editor_update_row :: "editor_row \<Rightarrow> string \<Rightarrow> nat \<Rightarrow> editor_row" where
  "editor_update_row row s len = take len s"

definition editor_delete_row :: "int \<Rightarrow> editor_config \<Rightarrow> editor_config" where
  "editor_delete_row at E =
     (if at < 0 \<or> at \<ge> num_rows E then E
      else
        let rs = take (nat at) (rows E) @ drop (nat at + 1) (rows E);
            n = int (length rs);
            cy = (if cursor_y E \<ge> n then (if n \<noteq> 0 then n - 1 else 0) else cursor_y E);
            cx = (if n \<noteq> 0
                  then (let rowlen = int (length (rs ! nat cy))
                        in if cursor_x E > rowlen then rowlen else cursor_x E)
                  else 0)
        in E\<lparr>rows := rs, cursor_y := cy, cursor_x := cx, modified := True\<rparr>)"

definition editor_insert_row :: "int \<Rightarrow> string \<Rightarrow> nat \<Rightarrow> editor_config \<Rightarrow> editor_config" where
  "editor_insert_row at s len E =
     (if at < 0 \<or> at > num_rows E then E
      else E\<lparr>rows := take (nat at) (rows E) @ [editor_update_row [] s len] @ drop (nat at) (rows E),
              modified := True\<rparr>)"

definition editor_row_insert_char :: "nat \<Rightarrow> int \<Rightarrow> int \<Rightarrow> editor_config \<Rightarrow> editor_config" where
  "editor_row_insert_char ri at c E =
     (let row = rows E ! ri;
          at' = (if at < 0 \<or> at > int (length row) then int (length row) else at)
      in E\<lparr>rows := (rows E)[ri := take (nat at') row @ [char_of c] @ drop (nat at') row],
            modified := True\<rparr>)"

definition editor_row_delete_char :: "nat \<Rightarrow> int \<Rightarrow> editor_config \<Rightarrow> editor_config" where
  "editor_row_delete_char ri at E =
     (let row = rows E ! ri
      in if at < 0 \<or> at \<ge> int (length row) then E
         else E\<lparr>rows := (rows E)[ri := take (nat at) row @ drop (nat at + 1) row],
                 modified := True\<rparr>)"

definition editor_row_append_string :: "nat \<Rightarrow> string \<Rightarrow> nat \<Rightarrow> editor_config \<Rightarrow> editor_config" where
  "editor_row_append_string ri s len E =
     E\<lparr>rows := (rows E)[ri := (rows E ! ri) @ take len s], modified := True\<rparr>"

section \<open>Editor operations\<close>

definition editor_insert_char :: "int \<Rightarrow> editor_config \<Rightarrow> editor_config" where
  "editor_insert_char c E =
     (let E1 = (if num_rows E = 0 then editor_insert_row 0 [] 0 E else E);
          E2 = (if cursor_y E1 = num_rows E1 then editor_insert_row (num_rows E1) [] 0 E1 else E1);
          E3 = editor_row_insert_char (nat (cursor_y E2)) (cursor_x E2) c E2
      in E3\<lparr>cursor_x := cursor_x E3 + 1\<rparr>)"

definition editor_insert_newline :: "editor_config \<Rightarrow> editor_config" where
  "editor_insert_newline E =
     (if num_rows E = 0 then
        (editor_insert_row 1 [] 0 (editor_insert_row 0 [] 0 E))\<lparr>cursor_y := 1, cursor_x := 0\<rparr>
      else if cursor_y E \<ge> num_rows E then
        (let E1 = editor_insert_row (num_rows E) [] 0 E
         in E1\<lparr>cursor_y := num_rows E1 - 1, cursor_x := 0\<rparr>)
      else if cursor_x E = 0 then
        (let E1 = editor_insert_row (cursor_y E) [] 0 E
         in E1\<lparr>cursor_y := cursor_y E1 + 1, cursor_x := 0\<rparr>)
      else
        (let row = rows E ! nat (cursor_y E);
             tail = drop (nat (cursor_x E)) row;
             tail_len = length row - nat (cursor_x E);
             E1 = editor_insert_row (cursor_y E + 1) tail tail_len E;
             E2 = E1\<lparr>rows := (rows E1)[nat (cursor_y E1) :=
                          take (nat (cursor_x E1)) (rows E1 ! nat (cursor_y E1))]\<rparr>
         in E2\<lparr>cursor_y := cursor_y E2 + 1, cursor_x := 0\<rparr>))"

definition editor_delete_char :: "editor_config \<Rightarrow> editor_config" where
  "editor_delete_char E =
     (if num_rows E = 0 then E
      else if cursor_y E \<ge> num_rows E then E
      else if cursor_x E = 0 \<and> cursor_y E = 0 then E
      else if cursor_x E > 0 then
        (let E1 = editor_row_delete_char (nat (cursor_y E)) (cursor_x E - 1) E
         in E1\<lparr>cursor_x := cursor_x E1 - 1\<rparr>)
      else
        (let row = rows E ! nat (cursor_y E);
             prev = cursor_y E - 1;
             prev_len = int (length (rows E ! nat prev));
             E1 = editor_row_append_string (nat prev) row (length row) E;
             E2 = editor_delete_row (cursor_y E1) E1
         in E2\<lparr>cursor_y := prev, cursor_x := prev_len\<rparr>))"

section \<open>File I/O\<close>

text \<open>\<^verbatim>\<open>vsnprintf\<close> into \<^verbatim>\<open>char status_msg[80]\<close>: the formatted text, cut to 79 bytes.\<close>

definition set_status_message :: "string \<Rightarrow> editor_config \<Rightarrow> editor_config" where
  "set_status_message msg E = E\<lparr>status_msg := take 79 msg\<rparr>"

text \<open>
  \<^verbatim>\<open>getline\<close> on the unread bytes of the stream: \<open>None\<close> at end of file (the source's
  \<^verbatim>\<open>-1\<close>), else the next line, its newline included when there is one, and the bytes left.
\<close>

fun getline :: "string \<Rightarrow> (string \<times> string) option" where
  "getline [] = None"
| "getline (c # cs) =
     (if c = CHR 0x0A then Some ([c], cs)
      else (case getline cs of
              None \<Rightarrow> Some ([c], [])
            | Some (l, r) \<Rightarrow> Some (c # l, r)))"

text \<open>The inner loop of \<^verbatim>\<open>open_file\<close>: \<^verbatim>\<open>len--\<close> while the last byte is LF or CR.\<close>

fun strip_eol :: "string \<Rightarrow> nat \<Rightarrow> nat" where
  "strip_eol line 0 = 0"
| "strip_eol line (Suc n) =
     (if line ! n = CHR 0x0A \<or> line ! n = CHR 0x0D then strip_eol line n else Suc n)"

lemma getline_shorter: "getline fp = Some (l, r) \<Longrightarrow> length r < length fp"
  by (induction fp arbitrary: l r) (auto split: if_splits option.splits)

function read_lines :: "string \<Rightarrow> editor_config \<Rightarrow> editor_config" where
  "read_lines fp E =
     (case getline fp of
        None \<Rightarrow> E
      | Some (line, fp') \<Rightarrow>
          read_lines fp' (editor_insert_row (num_rows E) line (strip_eol line (length line)) E))"
  by pat_completeness auto
termination
  by (relation "measure (\<lambda>(fp, E). length fp)") (auto simp: getline_shorter)

declare read_lines.simps [simp del]

text \<open>
  \<^verbatim>\<open>MAX_FILENAME\<close> comes from \<^verbatim>\<open>config.h\<close>, which is not among the sources (256 when the
  header does not define it): it is a parameter.
\<close>

definition open_file :: "nat \<Rightarrow> filesystem \<Rightarrow> string option \<Rightarrow> editor_config \<Rightarrow> editor_config" where
  "open_file MAX_FILENAME fs path E =
     (let E1 = (case path of
                  Some p \<Rightarrow> E\<lparr>filename := take (MAX_FILENAME - 1) p\<rparr>
                | None \<Rightarrow> E\<lparr>filename := []\<rparr>);
          fp = (case path of Some p \<Rightarrow> files fs p | None \<Rightarrow> None)
      in case fp of
           None \<Rightarrow>
             set_status_message
               (''New file: '' @ (if filename E1 \<noteq> [] then filename E1 else ''(unnamed)'')) E1
         | Some data \<Rightarrow>
             set_status_message (''Opened: '' @ filename E1)
               ((read_lines data E1)\<lparr>modified := False\<rparr>))"

text \<open>What \<^verbatim>\<open>fprintf(fp, "%s\n", row.chars)\<close> writes: the row as a C string, then LF.\<close>

definition fprintf_line :: "editor_row \<Rightarrow> string" where
  "fprintf_line row = takeWhile (\<lambda>c. c \<noteq> CHR 0x00) row @ [CHR 0x0A]"

text \<open>
  The bytes that \<^verbatim>\<open>fopen(path, "w")\<close>, the writes and \<^verbatim>\<open>fclose\<close> leave in the file: all of
  \<open>data\<close>, or its first bytes only when writing to this path fails.
\<close>

definition written :: "filesystem \<Rightarrow> string \<Rightarrow> string \<Rightarrow> string" where
  "written fs path data =
     (case fwrite_limit fs path of None \<Rightarrow> data | Some n \<Rightarrow> take n data)"

text \<open>
  \<^verbatim>\<open>save_file\<close> does not look at the results of \<^verbatim>\<open>fprintf\<close> and \<^verbatim>\<open>fclose\<close>: once the file
  is open, the editor state it returns is the same whether the bytes were written or not.
\<close>

definition save_file :: "filesystem \<Rightarrow> editor_config \<Rightarrow> filesystem \<times> editor_config" where
  "save_file fs E =
     (if filename E = [] then (fs, set_status_message ''ERROR: No filename'' E)
      else case fopen_w_error fs (filename E) of
             Some err \<Rightarrow> (fs, set_status_message (''I/O error: '' @ err) E)
           | None \<Rightarrow>
               (fs\<lparr>files := (files fs)(filename E \<mapsto>
                        written fs (filename E) (concat (map fprintf_line (rows E))))\<rparr>,
                set_status_message (''Saved: '' @ filename E) (E\<lparr>modified := False\<rparr>)))"

section \<open>Screen drawing\<close>

text \<open>
  The append buffer \<^verbatim>\<open>struct abuf\<close> is the list of its bytes; \<^verbatim>\<open>ab_append\<close> copies the
  first \<open>len\<close> bytes of \<open>s\<close>.
\<close>

definition ab_append :: "string \<Rightarrow> string \<Rightarrow> nat \<Rightarrow> string" where
  "ab_append ab s len = ab @ take len s"

definition editor_scroll :: "editor_config \<Rightarrow> editor_config" where
  "editor_scroll E =
     (let E1 = (if cursor_y E < row_offset E then E\<lparr>row_offset := cursor_y E\<rparr> else E);
          E2 = (if cursor_y E1 \<ge> row_offset E1 + (screen_rows E1 - 2)
                then E1\<lparr>row_offset := cursor_y E1 - (screen_rows E1 - 2) + 1\<rparr> else E1);
          E3 = (if cursor_x E2 < col_offset E2 then E2\<lparr>col_offset := cursor_x E2\<rparr> else E2)
      in if cursor_x E3 \<ge> col_offset E3 + screen_cols E3
         then E3\<lparr>col_offset := cursor_x E3 - screen_cols E3 + 1\<rparr> else E3)"

text \<open>The padding loop of \<^verbatim>\<open>draw_status_bar\<close>.\<close>

function pad_status :: "string \<Rightarrow> int \<Rightarrow> int \<Rightarrow> string" where
  "pad_status ab len cols =
     (if len < cols then pad_status (ab_append ab '' '' 1) (len + 1) cols else ab)"
  by pat_completeness auto
termination
  by (relation "measure (\<lambda>(ab, len, cols). nat (cols - len))") auto

text \<open>
  \<^verbatim>\<open>draw_status_bar\<close>. \<open>status\<close> is what \<^verbatim>\<open>snprintf\<close> writes into \<^verbatim>\<open>char status[160]\<close>
  (at most 159 bytes of the text and the NUL), \<open>len\<close> the length of the whole text, which
  is what \<^verbatim>\<open>snprintf\<close> returns. When the final \<open>len\<close> is negative or goes past the bytes
  written, \<^verbatim>\<open>ab_append\<close> reads memory that was never written: the result is \<open>None\<close>.
\<close>

definition draw_status_bar :: "string \<Rightarrow> editor_config \<Rightarrow> string option" where
  "draw_status_bar ab E =
     (let ab1 = ab_append ab [CHR 0x1B, CHR ''['', CHR ''7'', CHR ''m''] 3;
          text = ''['' @ (if filename E \<noteq> [] then filename E else ''[No Name]'') @ ''] ''
                   @ (if modified E then ''*'' else []);
          status = take 159 text @ [CHR 0x00];
          len = int (length text);
          len1 = (if len > screen_cols E then screen_cols E else len)
      in if len1 < 0 \<or> nat len1 > length status then None
         else
           let ab2 = ab_append ab1 status (nat len1);
               ab3 = pad_status ab2 len1 (screen_cols E)
           in Some (ab_append ab3 [CHR 0x1B, CHR ''['', CHR ''m'', CHR 0x0D, CHR 0x0A] 5))"

text \<open>Of \<^verbatim>\<open>refresh_screen\<close> only \<^verbatim>\<open>editor_scroll\<close> changes the editor state.\<close>

definition refresh_screen :: "editor_config \<Rightarrow> editor_config" where
  "refresh_screen E = editor_scroll E"

section \<open>Input\<close>

definition editor_move_cursor :: "int \<Rightarrow> editor_config \<Rightarrow> editor_config" where
  "editor_move_cursor key E =
     (if num_rows E = 0 then E
      else
        let E1 =
          (if key = of_char (CHR ''A'') then
             (if cursor_y E > 0 then E\<lparr>cursor_y := cursor_y E - 1\<rparr> else E)
           else if key = of_char (CHR ''B'') then
             (if cursor_y E < num_rows E - 1 then E\<lparr>cursor_y := cursor_y E + 1\<rparr> else E)
           else if key = of_char (CHR ''D'') then
             (if cursor_x E > 0 then E\<lparr>cursor_x := cursor_x E - 1\<rparr>
              else if cursor_y E > 0 then
                E\<lparr>cursor_y := cursor_y E - 1,
                  cursor_x := int (length (rows E ! nat (cursor_y E - 1)))\<rparr>
              else E)
           else if key = of_char (CHR ''C'') then
             (if cursor_y E < num_rows E \<and> cursor_x E < int (length (rows E ! nat (cursor_y E)))
              then E\<lparr>cursor_x := cursor_x E + 1\<rparr>
              else if cursor_y E < num_rows E - 1 then
                E\<lparr>cursor_y := cursor_y E + 1, cursor_x := 0\<rparr>
              else E)
           else E);
          rowlen = (if cursor_y E1 \<ge> num_rows E1 then 0
                    else int (length (rows E1 ! nat (cursor_y E1))))
        in if cursor_x E1 > rowlen then E1\<lparr>cursor_x := rowlen\<rparr> else E1)"

text \<open>One \<^verbatim>\<open>read(STDIN_FILENO, &c, 1)\<close>: the byte, if the call returned 1, and the input left.\<close>

fun read1 :: "tty_input \<Rightarrow> char option \<times> tty_input" where
  "read1 [] = (None, [])"
| "read1 (x # xs) = (x, xs)"

definition read_key :: "tty_input \<Rightarrow> int \<times> tty_input" where
  "read_key inp =
     (case read1 inp of
        (None, r) \<Rightarrow> (- 1, r)
      | (Some c, r) \<Rightarrow>
          if c \<noteq> CHR 0x1B then (of_char c, r)
          else (case read1 r of
                  (None, r1) \<Rightarrow> (of_char (CHR 0x1B), r1)
                | (Some s1, r1) \<Rightarrow>
                    if s1 \<noteq> CHR ''['' then (of_char (CHR 0x1B), r1)
                    else (case read1 r1 of
                            (None, r2) \<Rightarrow> (of_char (CHR 0x1B), r2)
                          | (Some s2, r2) \<Rightarrow>
                              if s2 = CHR ''A'' \<or> s2 = CHR ''B'' \<or> s2 = CHR ''C'' \<or> s2 = CHR ''D''
                              then (of_char s2, r2)
                              else (of_char (CHR 0x1B), r2))))"

definition process_keypress :: "filesystem \<Rightarrow> tty_input \<Rightarrow> editor_config \<Rightarrow> outcome" where
  "process_keypress fs inp E =
     (let (k, inp') = read_key inp
      in if k < 0 then Running fs inp' E
         else if k = of_char (CHR 0x0D) then Running fs inp' (editor_insert_newline E)
         else if k = 17 then Exited 0 fs
         else if k = 19 then (let (fs', E') = save_file fs E in Running fs' inp' E')
         else if k = 127 then Running fs inp' (editor_delete_char E)
         else if k = of_char (CHR ''A'') \<or> k = of_char (CHR ''B'')
                 \<or> k = of_char (CHR ''C'') \<or> k = of_char (CHR ''D'')
           then Running fs inp' (editor_move_cursor k E)
         else if k \<ge> 32 \<and> k < 127 then Running fs inp' (editor_insert_char k E)
         else Running fs inp' E)"

section \<open>Init and main loop\<close>

text \<open>
  \<^verbatim>\<open>get_window_size\<close>: the argument is what \<^verbatim>\<open>ioctl(TIOCGWINSZ)\<close> gives, \<open>None\<close> when it
  fails, else \<open>(ws_row, ws_col)\<close>. The result is the return value, \<open>*rows\<close> and \<open>*cols\<close>.
\<close>

definition get_window_size :: "(nat \<times> nat) option \<Rightarrow> int \<times> int \<times> int" where
  "get_window_size ws =
     (case ws of
        None \<Rightarrow> (- 1, 24, 80)
      | Some (ws_row, ws_col) \<Rightarrow>
          if ws_col = 0 then (- 1, 24, 80) else (0, int ws_row, int ws_col))"

definition init_editor :: "(nat \<times> nat) option \<Rightarrow> editor_config" where
  "init_editor ws =
     (let (r, rs, cs) = get_window_size ws
      in \<lparr>screen_rows = (if r = - 1 then 24 else rs),
          screen_cols = (if r = - 1 then 80 else cs),
          cursor_x = 0, cursor_y = 0, row_offset = 0, col_offset = 0,
          rows = [], filename = [], modified = False, status_msg = []\<rparr>)"

text \<open>\<^verbatim>\<open>main\<close> up to the loop: \<open>arg\<close> is \<^verbatim>\<open>argv[1]\<close> when \<^verbatim>\<open>argc > 1\<close>.\<close>

definition startup :: "nat \<Rightarrow> filesystem \<Rightarrow> string option \<Rightarrow> (nat \<times> nat) option \<Rightarrow> editor_config" where
  "startup MAX_FILENAME fs arg ws =
     (case arg of
        Some p \<Rightarrow> open_file MAX_FILENAME fs (Some p) (init_editor ws)
      | None \<Rightarrow> set_status_message ''Help: Ctrl+S=Save | Ctrl+Q=Quit'' (init_editor ws))"

text \<open>
  The loop of \<^verbatim>\<open>main\<close> never ends by itself. \<open>main_loop\<close> runs one iteration for each
  element of its first argument, which says whether \<^verbatim>\<open>ned_need_resize\<close> is set at the top
  of that iteration and, if so, what the window size query finds. It returns the state
  reached after the last of them, or the exit.
\<close>

fun main_loop ::
  "(nat \<times> nat) option option list \<Rightarrow> filesystem \<Rightarrow> tty_input \<Rightarrow> editor_config \<Rightarrow> outcome" where
  "main_loop [] fs inp E = Running fs inp E"
| "main_loop (rz # sched) fs inp E =
     (let E1 = (case rz of
                  None \<Rightarrow> E
                | Some ws \<Rightarrow>
                    (let (r, rs, cs) = get_window_size ws
                     in E\<lparr>screen_rows := rs, screen_cols := cs\<rparr>));
          E2 = refresh_screen E1
      in case process_keypress fs inp E2 of
           Exited code fs' \<Rightarrow> Exited code fs'
         | Running fs' inp' E3 \<Rightarrow> main_loop sched fs' inp' E3)"

section \<open>The cursor invariant\<close>

text \<open>
  The invariant of the cursor: the row is between 0 and the number of lines; on a line,
  the column is between 0 and the length of that line; past the last line it is 0.
\<close>

definition cursor_ok :: "editor_config \<Rightarrow> bool" where
  "cursor_ok E \<longleftrightarrow>
     0 \<le> cursor_y E \<and> cursor_y E \<le> num_rows E \<and>
     (if cursor_y E < num_rows E
      then 0 \<le> cursor_x E \<and> cursor_x E \<le> int (length (rows E ! nat (cursor_y E)))
      else cursor_x E = 0)"

text \<open>
  The \<^verbatim>\<open>switch\<close> of \<^verbatim>\<open>editor_move_cursor\<close> by itself (the function above without its
  final clamp), named for the proofs.
\<close>

definition move_switch :: "int \<Rightarrow> editor_config \<Rightarrow> editor_config" where
  "move_switch key E =
     (if key = of_char (CHR ''A'') then
        (if cursor_y E > 0 then E\<lparr>cursor_y := cursor_y E - 1\<rparr> else E)
      else if key = of_char (CHR ''B'') then
        (if cursor_y E < num_rows E - 1 then E\<lparr>cursor_y := cursor_y E + 1\<rparr> else E)
      else if key = of_char (CHR ''D'') then
        (if cursor_x E > 0 then E\<lparr>cursor_x := cursor_x E - 1\<rparr>
         else if cursor_y E > 0 then
           E\<lparr>cursor_y := cursor_y E - 1,
             cursor_x := int (length (rows E ! nat (cursor_y E - 1)))\<rparr>
         else E)
      else if key = of_char (CHR ''C'') then
        (if cursor_y E < num_rows E \<and> cursor_x E < int (length (rows E ! nat (cursor_y E)))
         then E\<lparr>cursor_x := cursor_x E + 1\<rparr>
         else if cursor_y E < num_rows E - 1 then
           E\<lparr>cursor_y := cursor_y E + 1, cursor_x := 0\<rparr>
         else E)
      else E)"

section \<open>The viewport rules of the specification\<close>

text \<open>
  The viewport rules in the words of the specification, for comparison with
  \<^verbatim>\<open>editor_scroll\<close>: from the cursor, the offsets and the terminal size to the new offsets.
\<close>

definition recompute_viewport :: "int \<times> int \<Rightarrow> int \<times> int \<Rightarrow> int \<Rightarrow> int \<Rightarrow> int \<times> int" where
  "recompute_viewport cursor offsets terminal_rows terminal_cols =
     (let (row, col) = cursor;
          (row_offset0, col_offset0) = offsets;
          visible_rows = terminal_rows - 2;
          visible_cols = terminal_cols;
          row_offset1 = (if row < row_offset0 then row else row_offset0);
          row_offset2 = (if row \<ge> row_offset1 + visible_rows then row - visible_rows + 1
                         else row_offset1);
          col_offset1 = (if col < col_offset0 then col else col_offset0);
          col_offset2 = (if col \<ge> col_offset1 + visible_cols then col - visible_cols + 1
                         else col_offset1)
      in (row_offset2, col_offset2))"

text \<open>The three bytes a terminal sends for the Down arrow.\<close>

definition key_down :: tty_input where
  "key_down = [Some (CHR 0x1B), Some (CHR ''[''), Some (CHR ''B'')]"

text \<open>The editor state of an outcome that has not exited.\<close>

definition running_state :: "outcome \<Rightarrow> editor_config option" where
  "running_state out = (case out of Running fs inp E \<Rightarrow> Some E | Exited code fs \<Rightarrow> None)"

section \<open>Example states\<close>

text \<open>A file system with no file, where every path can be opened and written.\<close>

definition ex_fs :: filesystem where
  "ex_fs = \<lparr>files = Map.empty, fopen_w_error = Map.empty, fwrite_limit = Map.empty\<rparr>"

text \<open>
  The editor started without a file name on a terminal whose size query fails (24 by
  80), after the keys \<^verbatim>\<open>a\<close>, \<^verbatim>\<open>b\<close>, \<^verbatim>\<open>c\<close>.
\<close>

definition typed_abc :: editor_config where
  "typed_abc = \<lparr>screen_rows = 24, screen_cols = 80, cursor_x = 3, cursor_y = 0,
      row_offset = 0, col_offset = 0, rows = [''abc''], filename = [], modified = True,
      status_msg = ''Help: Ctrl+S=Save | Ctrl+Q=Quit''\<rparr>"

text \<open>A new editor with no line, and two documents with the cursor placed by hand.\<close>

definition ex_new :: editor_config where
  "ex_new = \<lparr>screen_rows = 24, screen_cols = 80, cursor_x = 0, cursor_y = 0,
      row_offset = 0, col_offset = 0, rows = [], filename = [], modified = False,
      status_msg = []\<rparr>"

definition ex_past_end :: editor_config where
  "ex_past_end = ex_new\<lparr>rows := [''x''], cursor_y := 1\<rparr>"

definition ex_line_start :: editor_config where
  "ex_line_start = ex_new\<lparr>rows := [''ab'', ''cd''], cursor_y := 1\<rparr>"

text \<open>Two lines with the cursor on the second; a named, modified buffer on a narrow terminal.\<close>

definition ex_two_lines :: editor_config where
  "ex_two_lines = ex_new\<lparr>rows := [''x'', ''y''], cursor_y := 1\<rparr>"

definition ex_status :: editor_config where
  "ex_status = ex_new\<lparr>screen_cols := 16, filename := ''a.txt'', modified := True\<rparr>"

text \<open>
  A named, modified document; a file system where its file cannot be opened for writing;
  and one where the file opens but takes no byte (a full disk).
\<close>

definition ex_named :: editor_config where
  "ex_named = ex_new\<lparr>rows := [''ab'', ''cd''], filename := ''f'', modified := True\<rparr>"

definition ex_readonly_fs :: filesystem where
  "ex_readonly_fs = \<lparr>files = Map.empty, fopen_w_error = [''f'' \<mapsto> ''Permission denied''],
                      fwrite_limit = Map.empty\<rparr>"

definition ex_full_fs :: filesystem where
  "ex_full_fs = \<lparr>files = Map.empty, fopen_w_error = Map.empty, fwrite_limit = [''f'' \<mapsto> 0]\<rparr>"

text \<open>The editor as it starts on a terminal of 2 rows and 80 columns.\<close>

definition ex_two_rows_terminal :: editor_config where
  "ex_two_rows_terminal = init_editor (Some (2, 80))"

text \<open>Eleven lines on a terminal of 5 rows, cursor at the top and on the last line.\<close>

definition ex_eleven_lines :: editor_config where
  "ex_eleven_lines = ex_new\<lparr>screen_rows := 5, rows := replicate 11 ''line''\<rparr>"

definition ex_last_line :: editor_config where
  "ex_last_line = ex_eleven_lines\<lparr>cursor_y := 10\<rparr>"

text \<open>A line with a NUL byte in it, as read from a file with the bytes \<^verbatim>\<open>a 00 b 0A\<close>.\<close>

definition ex_nul_fs :: filesystem where
  "ex_nul_fs = \<lparr>files = [''f'' \<mapsto> [CHR ''a'', CHR 0x00, CHR ''b'', CHR 0x0A]],
                 fopen_w_error = Map.empty, fwrite_limit = Map.empty\<rparr>"

text \<open>Four lines, the first and third empty.\<close>

definition ex_mixed :: editor_config where
  "ex_mixed = ex_new\<lparr>rows := [[], ''ab'', [], ''c''], filename := ''f'', modified := True\<rparr>"

text \<open>A named document with no line, and one with a single empty line.\<close>

definition ex_no_lines :: editor_config where
  "ex_no_lines = ex_new\<lparr>filename := ''f''\<rparr>"

definition ex_one_empty_line :: editor_config where
  "ex_one_empty_line = ex_new\<lparr>rows := [[]], filename := ''f'', modified := True\<rparr>"

section \<open>What each operation does to the state\<close>

subsection \<open>Inserting and deleting rows\<close>

lemma insert_row_cursor:
  "cursor_x (editor_insert_row at s len E) = cursor_x E"
  "cursor_y (editor_insert_row at s len E) = cursor_y E"
  by (simp_all add: editor_insert_row_def)

lemma insert_row_append:
  "editor_insert_row (num_rows E) s len E = E\<lparr>rows := rows E @ [take len s], modified := True\<rparr>"
  by (simp add: editor_insert_row_def editor_update_row_def)

lemma insert_row_0:
  "editor_insert_row 0 s len E = E\<lparr>rows := take len s # rows E, modified := True\<rparr>"
  by (simp add: editor_insert_row_def editor_update_row_def)

lemma insert_row_at:
  "r \<le> length (rows E) \<Longrightarrow>
   editor_insert_row (int r) s len E =
     E\<lparr>rows := take r (rows E) @ take len s # drop r (rows E), modified := True\<rparr>"
  by (simp add: editor_insert_row_def editor_update_row_def)

lemma take_Suc_update: "n < length xs \<Longrightarrow> (take (Suc n) xs)[n := v] = take n xs @ [v]"
  by (simp add: take_Suc_conv_app_nth list_update_append)

lemma delete_row_overwrite:
  assumes "r < length (rows E)"
  shows "(editor_delete_row (int r) E)\<lparr>cursor_y := y, cursor_x := x\<rparr> =
         E\<lparr>rows := take r (rows E) @ drop (Suc r) (rows E), modified := True,
           cursor_y := y, cursor_x := x\<rparr>"
  using assms by (simp add: editor_delete_row_def Let_def)

subsection \<open>Typing a byte\<close>

lemma editor_insert_char_past_end:
  assumes "cursor_y E = num_rows E"
  shows "editor_insert_char c E =
     E\<lparr>rows := rows E @ [[char_of c]], modified := True, cursor_x := cursor_x E + 1\<rparr>"
proof (cases "rows E = []")
  case True
  show ?thesis using True assms
    by (simp add: editor_insert_char_def insert_row_0 editor_row_insert_char_def)
next
  case False
  show ?thesis using False assms
    by (simp add: editor_insert_char_def insert_row_append editor_row_insert_char_def nth_append)
qed

lemma editor_insert_char_on_line:
  assumes "0 \<le> cursor_y E" "cursor_y E < num_rows E"
    "0 \<le> cursor_x E" "cursor_x E \<le> int (length (rows E ! nat (cursor_y E)))"
  shows "editor_insert_char c E =
     E\<lparr>rows := (rows E)[nat (cursor_y E) :=
            take (nat (cursor_x E)) (rows E ! nat (cursor_y E)) @ [char_of c]
              @ drop (nat (cursor_x E)) (rows E ! nat (cursor_y E))],
       modified := True, cursor_x := cursor_x E + 1\<rparr>"
proof -
  have "rows E \<noteq> []" "cursor_y E \<noteq> num_rows E" using assms by auto
  then show ?thesis using assms
    by (simp add: editor_insert_char_def editor_row_insert_char_def Let_def)
qed

subsection \<open>Enter\<close>

lemma newline_empty:
  assumes "rows E = []"
  shows "editor_insert_newline E =
    E\<lparr>rows := [[], []], modified := True, cursor_y := 1, cursor_x := 0\<rparr>"
  using assms
  by (simp add: editor_insert_newline_def insert_row_0 editor_insert_row_def editor_update_row_def)

lemma newline_past_end:
  assumes "rows E \<noteq> []" "cursor_y E \<ge> num_rows E"
  shows "editor_insert_newline E =
    E\<lparr>rows := rows E @ [[]], modified := True, cursor_y := num_rows E, cursor_x := 0\<rparr>"
  using assms by (simp add: editor_insert_newline_def insert_row_append)

lemma newline_line_start:
  assumes "cursor_y E = int r" "r < length (rows E)" "cursor_x E = 0"
  shows "editor_insert_newline E =
    E\<lparr>rows := take r (rows E) @ [] # drop r (rows E), modified := True,
      cursor_y := int r + 1, cursor_x := 0\<rparr>"
proof -
  have "rows E \<noteq> []" using assms by auto
  then show ?thesis using assms
    by (simp add: editor_insert_newline_def insert_row_at)
qed

lemma newline_split:
  assumes y: "cursor_y E = int r" and r: "r < length (rows E)"
    and x: "cursor_x E = int c" and c0: "c \<noteq> 0" and c: "c \<le> length (rows E ! r)"
  shows "editor_insert_newline E =
    E\<lparr>rows := take r (rows E) @ take c (rows E ! r) # drop c (rows E ! r) # drop (Suc r) (rows E),
      modified := True, cursor_y := int r + 1, cursor_x := 0\<rparr>"
proof -
  have ne: "rows E \<noteq> []" using r by auto
  have i: "int r + 1 = int (Suc r)" by simp
  have sr: "Suc r \<le> length (rows E)" using r by simp
  define E1 where
    "E1 = editor_insert_row (int r + 1) (drop c (rows E ! r)) (length (rows E ! r) - c) E"
  have E1: "E1 = E\<lparr>rows := take (Suc r) (rows E) @ drop c (rows E ! r) # drop (Suc r) (rows E),
                    modified := True\<rparr>"
    unfolding E1_def i insert_row_at[OF sr] by simp
  have nth: "rows E1 ! r = rows E ! r" using r by (simp add: E1 nth_append)
  have upd: "(rows E1)[r := take c (rows E ! r)] =
        take r (rows E) @ take c (rows E ! r) # drop c (rows E ! r) # drop (Suc r) (rows E)"
    using r by (simp add: E1 list_update_append take_Suc_update)
  have cur: "cursor_y E1 = int r" "cursor_x E1 = int c" by (simp_all add: E1 y x)
  have "editor_insert_newline E =
     (E1\<lparr>rows := (rows E1)[nat (cursor_y E1) :=
               take (nat (cursor_x E1)) (rows E1 ! nat (cursor_y E1))]\<rparr>)
        \<lparr>cursor_y := cursor_y E1 + 1, cursor_x := 0\<rparr>"
    using ne r c0 y x by (simp add: editor_insert_newline_def Let_def E1_def insert_row_cursor)
  also have "\<dots> =
    E\<lparr>rows := take r (rows E) @ take c (rows E ! r) # drop c (rows E ! r) # drop (Suc r) (rows E),
      modified := True, cursor_y := int r + 1, cursor_x := 0\<rparr>"
    unfolding cur by (simp add: nth upd) (simp add: E1)
  finally show ?thesis .
qed

subsection \<open>Backspace\<close>

lemma delete_char_left:
  assumes y: "cursor_y E = int r" and r: "r < length (rows E)"
    and x: "cursor_x E = int c" and c0: "0 < c" and c: "c \<le> length (rows E ! r)"
  shows "editor_delete_char E =
    E\<lparr>rows := (rows E)[r := take (c - 1) (rows E ! r) @ drop c (rows E ! r)],
      modified := True, cursor_x := int c - 1\<rparr>"
proof -
  have ne: "rows E \<noteq> []" using r by auto
  have n: "nat (int c - 1) = c - 1" "Suc (c - 1) = c" using c0 by simp_all
  have b: "\<not> (int c - 1 < 0 \<or> int (length (rows E ! r)) \<le> int c - 1)" using c0 c by auto
  show ?thesis using ne r c0 y x b
    by (simp add: editor_delete_char_def editor_row_delete_char_def Let_def n)
qed

lemma delete_char_merge:
  assumes y: "cursor_y E = int (Suc p)" and r: "Suc p < length (rows E)"
    and x: "cursor_x E = 0"
  shows "editor_delete_char E =
    E\<lparr>rows := take p (rows E) @ (rows E ! p @ rows E ! Suc p) # drop (Suc (Suc p)) (rows E),
      modified := True, cursor_y := int p, cursor_x := int (length (rows E ! p))\<rparr>"
proof -
  have ne: "rows E \<noteq> []" using r by auto
  define E1 where "E1 = editor_row_append_string p (rows E ! Suc p) (length (rows E ! Suc p)) E"
  have E1: "E1 = E\<lparr>rows := (rows E)[p := rows E ! p @ rows E ! Suc p], modified := True\<rparr>"
    by (simp add: E1_def editor_row_append_string_def)
  have l1: "Suc p < length (rows E1)" using r by (simp add: E1)
  have c1: "cursor_y E1 = int (Suc p)" using y by (simp add: E1)
  have rs: "take (Suc p) (rows E1) @ drop (Suc (Suc p)) (rows E1) =
        take p (rows E) @ (rows E ! p @ rows E ! Suc p) # drop (Suc (Suc p)) (rows E)"
    using r by (simp add: E1 take_Suc_conv_app_nth)
  have "editor_delete_char E =
       (editor_delete_row (cursor_y E1) E1)
         \<lparr>cursor_y := int p, cursor_x := int (length (rows E ! p))\<rparr>"
    using ne r y x by (simp add: editor_delete_char_def Let_def E1_def nat_add_distrib)
  also have "\<dots> =
    E1\<lparr>rows := take (Suc p) (rows E1) @ drop (Suc (Suc p)) (rows E1), modified := True,
       cursor_y := int p, cursor_x := int (length (rows E ! p))\<rparr>"
    unfolding c1 by (rule delete_row_overwrite[OF l1])
  also have "\<dots> =
    E\<lparr>rows := take p (rows E) @ (rows E ! p @ rows E ! Suc p) # drop (Suc (Suc p)) (rows E),
      modified := True, cursor_y := int p, cursor_x := int (length (rows E ! p))\<rparr>"
    unfolding rs by (simp add: E1)
  finally show ?thesis .
qed

lemma delete_char_noop:
  "rows E = [] \<or> cursor_y E \<ge> num_rows E \<or> (cursor_x E = 0 \<and> cursor_y E = 0) \<Longrightarrow>
   editor_delete_char E = E"
  by (auto simp: editor_delete_char_def)

section \<open>Every operation keeps the cursor invariant\<close>

lemma move_cursor_switch:
  "editor_move_cursor key E =
     (if num_rows E = 0 then E
      else
        let E1 = move_switch key E;
            rowlen = (if cursor_y E1 \<ge> num_rows E1 then 0
                      else int (length (rows E1 ! nat (cursor_y E1))))
        in if cursor_x E1 > rowlen then E1\<lparr>cursor_x := rowlen\<rparr> else E1)"
  unfolding editor_move_cursor_def move_switch_def by (rule refl)

lemma move_switch_props:
  assumes ok: "cursor_ok E"
  shows "rows (move_switch key E) = rows E"
    and "0 \<le> cursor_y (move_switch key E)"
    and "cursor_y (move_switch key E) \<le> num_rows E"
    and "0 \<le> cursor_x (move_switch key E)"
proof -
  have x0: "0 \<le> cursor_x E" and y0: "0 \<le> cursor_y E" and y1: "cursor_y E \<le> num_rows E"
    using ok by (simp_all add: cursor_ok_def split: if_splits)
  show "rows (move_switch key E) = rows E" by (simp add: move_switch_def)
  show "0 \<le> cursor_y (move_switch key E)" using y0 by (simp add: move_switch_def)
  show "cursor_y (move_switch key E) \<le> num_rows E" using y1 by (simp add: move_switch_def)
  show "0 \<le> cursor_x (move_switch key E)" using x0 by (simp add: move_switch_def)
qed

lemma cursor_ok_move_cursor:
  assumes ok: "cursor_ok E"
  shows "cursor_ok (editor_move_cursor key E)"
proof (cases "num_rows E = 0")
  case True
  then show ?thesis using ok by (simp add: editor_move_cursor_def)
next
  case False
  define E1 where "E1 = move_switch key E"
  have p: "rows E1 = rows E" "0 \<le> cursor_y E1" "cursor_y E1 \<le> num_rows E" "0 \<le> cursor_x E1"
    unfolding E1_def using move_switch_props[OF ok] by blast+
  show ?thesis
    unfolding move_cursor_switch using False p
    by (simp add: Let_def E1_def[symmetric] cursor_ok_def)
qed

lemma cursor_ok_insert_row:
  "cursor_ok E \<Longrightarrow> at > cursor_y E \<or> cursor_x E = 0 \<Longrightarrow> cursor_ok (editor_insert_row at s len E)"
  by (auto simp: cursor_ok_def editor_insert_row_def nth_append split: if_splits)

lemma cursor_ok_delete_row:
  assumes ok: "cursor_ok E"
  shows "cursor_ok (editor_delete_row at E)"
proof (cases "at < 0 \<or> at \<ge> num_rows E")
  case True
  then show ?thesis using ok by (simp add: editor_delete_row_def)
next
  case False
  define rs where "rs = take (nat at) (rows E) @ drop (nat at + 1) (rows E)"
  define n where "n = int (length rs)"
  define cy where "cy = (if cursor_y E \<ge> n then (if n \<noteq> 0 then n - 1 else 0) else cursor_y E)"
  define cx where "cx = (if n \<noteq> 0
                  then (let rowlen = int (length (rs ! nat cy))
                        in if cursor_x E > rowlen then rowlen else cursor_x E)
                  else 0)"
  have eq: "editor_delete_row at E = E\<lparr>rows := rs, cursor_y := cy, cursor_x := cx, modified := True\<rparr>"
    using False unfolding editor_delete_row_def rs_def n_def cy_def cx_def Let_def
    by (simp only: if_False)
  have x0: "0 \<le> cursor_x E" and y0: "0 \<le> cursor_y E"
    using ok by (simp_all add: cursor_ok_def split: if_splits)
  have n0: "0 \<le> n" by (simp add: n_def)
  have cyb: "0 \<le> cy \<and> cy \<le> n" using y0 n0 by (auto simp: cy_def)
  have cyn: "n \<noteq> 0 \<Longrightarrow> cy < n" by (auto simp: cy_def)
  have cxb: "if cy < n then 0 \<le> cx \<and> cx \<le> int (length (rs ! nat cy)) else cx = 0"
  proof (cases "n = 0")
    case True
    then show ?thesis using cyb by (simp add: cx_def)
  next
    case False
    then show ?thesis using cyn x0 by (simp add: cx_def Let_def)
  qed
  show ?thesis
    unfolding eq using cyb cxb by (simp add: cursor_ok_def n_def)
qed

lemma cursor_ok_insert_char:
  assumes ok: "cursor_ok E"
  shows "cursor_ok (editor_insert_char c E)"
proof (cases "cursor_y E = num_rows E")
  case True
  then have "cursor_x E = 0" using ok by (simp add: cursor_ok_def)
  then show ?thesis unfolding editor_insert_char_past_end[OF True] using True
    by (simp add: cursor_ok_def)
next
  case False
  then have a: "0 \<le> cursor_y E" "cursor_y E < num_rows E"
    "0 \<le> cursor_x E" "cursor_x E \<le> int (length (rows E ! nat (cursor_y E)))"
    using ok by (simp_all add: cursor_ok_def)
  have l: "nat (cursor_y E) < length (rows E)" using a by simp
  show ?thesis unfolding editor_insert_char_on_line[OF a] using a l
    by (simp add: cursor_ok_def)
qed

text \<open>A cursor on a line, in natural numbers.\<close>

lemma cursor_on_line:
  assumes "cursor_ok E" "cursor_y E < num_rows E"
  obtains r c where "cursor_y E = int r" "r < length (rows E)" "cursor_x E = int c"
    "c \<le> length (rows E ! r)"
proof -
  from assms have a: "0 \<le> cursor_y E" "0 \<le> cursor_x E"
    "cursor_x E \<le> int (length (rows E ! nat (cursor_y E)))"
    by (simp_all add: cursor_ok_def)
  show thesis
  proof (rule that[of "nat (cursor_y E)" "nat (cursor_x E)"])
    show "cursor_y E = int (nat (cursor_y E))" using a by simp
    show "nat (cursor_y E) < length (rows E)" using a assms(2) by simp
    show "cursor_x E = int (nat (cursor_x E))" using a by simp
    show "nat (cursor_x E) \<le> length (rows E ! nat (cursor_y E))" using a by simp
  qed
qed

lemma cursor_ok_insert_newline:
  assumes ok: "cursor_ok E"
  shows "cursor_ok (editor_insert_newline E)"
proof -
  consider (empty) "rows E = []" | (past) "rows E \<noteq> []" "cursor_y E \<ge> num_rows E"
    | (line) "cursor_y E < num_rows E" by fastforce
  then show ?thesis
  proof cases
    case empty
    then show ?thesis by (simp add: newline_empty cursor_ok_def)
  next
    case past
    then show ?thesis by (simp add: newline_past_end cursor_ok_def)
  next
    case line
    from cursor_on_line[OF ok line] obtain r c where
      rc: "cursor_y E = int r" "r < length (rows E)" "cursor_x E = int c" "c \<le> length (rows E ! r)"
      by blast
    show ?thesis
    proof (cases "c = 0")
      case True
      then have "cursor_x E = 0" using rc by simp
      from newline_line_start[OF rc(1,2) this] rc show ?thesis by (simp add: cursor_ok_def)
    next
      case False
      from newline_split[OF rc(1,2,3) False rc(4)] rc show ?thesis
        by (simp add: cursor_ok_def nth_append)
    qed
  qed
qed

lemma cursor_ok_delete_char:
  assumes ok: "cursor_ok E"
  shows "cursor_ok (editor_delete_char E)"
proof (cases "rows E = [] \<or> cursor_y E \<ge> num_rows E \<or> (cursor_x E = 0 \<and> cursor_y E = 0)")
  case True
  then show ?thesis using ok by (simp add: delete_char_noop)
next
  case False
  then have line: "cursor_y E < num_rows E" by simp
  from cursor_on_line[OF ok line] obtain r c where
    rc: "cursor_y E = int r" "r < length (rows E)" "cursor_x E = int c" "c \<le> length (rows E ! r)"
    by blast
  show ?thesis
  proof (cases "c = 0")
    case True
    then have x: "cursor_x E = 0" using rc by simp
    with False rc obtain p where p: "r = Suc p" by (cases r) auto
    from delete_char_merge[OF rc(1)[unfolded p] rc(2)[unfolded p] x] rc p
    show ?thesis by (simp add: cursor_ok_def nth_append)
  next
    case False
    then have c0: "0 < c" by simp
    from delete_char_left[OF rc(1,2,3) c0 rc(4)] rc c0 show ?thesis
      by (simp add: cursor_ok_def)
  qed
qed

subsection \<open>Key handling, start-up and the main loop\<close>

lemma cursor_ok_set_status_message:
  "cursor_ok (set_status_message m E) = cursor_ok E"
  by (simp add: set_status_message_def cursor_ok_def)

lemma cursor_ok_save_file:
  "cursor_ok E \<Longrightarrow> cursor_ok (snd (save_file fs E))"
  by (simp add: save_file_def set_status_message_def cursor_ok_def split: option.splits)

lemma cursor_ok_process_keypress:
  assumes ok: "cursor_ok E" and run: "process_keypress fs inp E = Running fs' inp' E'"
  shows "cursor_ok E'"
proof -
  obtain k r where k: "read_key inp = (k, r)" by (cases "read_key inp")
  obtain fs1 E1 where sv: "save_file fs E = (fs1, E1)" by (cases "save_file fs E")
  have E1: "cursor_ok E1" using cursor_ok_save_file[OF ok, of fs] sv by simp
  have "E' = E \<or> E' = editor_insert_newline E \<or> E' = E1 \<or> E' = editor_delete_char E
      \<or> E' = editor_move_cursor k E \<or> E' = editor_insert_char k E"
    using run unfolding process_keypress_def k sv by (simp split: if_splits)
  then show ?thesis
    using ok E1 cursor_ok_insert_newline cursor_ok_delete_char cursor_ok_move_cursor
      cursor_ok_insert_char by auto
qed

lemma read_lines_keeps:
  "cursor_ok E \<Longrightarrow> cursor_x E = 0 \<Longrightarrow>
   cursor_ok (read_lines fp E) \<and> cursor_x (read_lines fp E) = 0"
proof (induction fp E rule: read_lines.induct)
  case (1 fp E)
  show ?case
  proof (cases "getline fp")
    case None
    then show ?thesis using 1 by (simp add: read_lines.simps[of fp])
  next
    case (Some a)
    obtain line fp' where a: "a = (line, fp')" by (cases a)
    let ?E = "editor_insert_row (num_rows E) line (strip_eol line (length line)) E"
    have "cursor_ok ?E" using "1.prems" by (simp add: cursor_ok_insert_row)
    moreover have "cursor_x ?E = 0" using "1.prems" by (simp add: insert_row_cursor)
    ultimately show ?thesis using "1.IH"[OF Some a[symmetric]] Some a
      by (simp add: read_lines.simps[of fp])
  qed
qed

lemma cursor_ok_init: "cursor_ok (init_editor ws)" "cursor_x (init_editor ws) = 0"
  by (simp_all add: init_editor_def cursor_ok_def split: prod.splits)

lemma cursor_ok_open_file:
  assumes "cursor_ok E" "cursor_x E = 0"
  shows "cursor_ok (open_file m fs path E)"
proof -
  have a: "\<And>f. cursor_ok (E\<lparr>filename := f\<rparr>) \<and> cursor_x (E\<lparr>filename := f\<rparr>) = 0"
    using assms by (simp add: cursor_ok_def)
  have b: "\<And>E'. cursor_ok (E'\<lparr>modified := False\<rparr>) = cursor_ok E'"
    by (simp add: cursor_ok_def)
  show ?thesis
    using a read_lines_keeps[OF a[THEN conjunct1] a[THEN conjunct2]]
    by (simp add: open_file_def Let_def cursor_ok_set_status_message b
        split: option.splits)
qed

lemma cursor_ok_startup: "cursor_ok (startup m fs arg ws)"
  by (simp add: startup_def cursor_ok_open_file cursor_ok_init cursor_ok_set_status_message
      split: option.splits)

lemma cursor_ok_editor_scroll: "cursor_ok (editor_scroll E) = cursor_ok E"
  by (simp add: editor_scroll_def cursor_ok_def Let_def)

lemma cursor_ok_main_loop:
  "cursor_ok E \<Longrightarrow> main_loop sched fs inp E = Running fs' inp' E' \<Longrightarrow> cursor_ok E'"
proof (induction sched arbitrary: fs inp E)
  case Nil
  then show ?case by simp
next
  case (Cons rz sched)
  define E1 where "E1 = (case rz of None \<Rightarrow> E
                | Some ws \<Rightarrow> (let (r, rs, cs) = get_window_size ws
                     in E\<lparr>screen_rows := rs, screen_cols := cs\<rparr>))"
  have resize: "\<And>a b. cursor_ok (E\<lparr>screen_rows := a, screen_cols := b\<rparr>) = cursor_ok E"
    by (simp add: cursor_ok_def)
  have "cursor_ok E1"
    using Cons.prems(1) by (simp add: E1_def resize split: option.splits prod.splits)
  then have ok1: "cursor_ok (refresh_screen E1)"
    by (simp add: refresh_screen_def cursor_ok_editor_scroll)
  from Cons.prems(2) obtain fs1 inp1 E3 where
    step: "process_keypress fs inp (refresh_screen E1) = Running fs1 inp1 E3"
    and rest: "main_loop sched fs1 inp1 E3 = Running fs' inp' E'"
    by (simp add: E1_def[symmetric] Let_def split: outcome.splits)
  from cursor_ok_process_keypress[OF ok1 step] have "cursor_ok E3" .
  from Cons.IH[OF this rest] show ?case .
qed

section \<open>Keys\<close>

lemma read_key_plain: "c \<noteq> CHR 0x1B \<Longrightarrow> read_key (Some c # inp) = (of_char c, inp)"
  by (simp add: read_key_def)

lemma key_printable:
  assumes "32 \<le> (of_char c :: int)" "(of_char c :: int) < 127"
    "c \<noteq> CHR ''A''" "c \<noteq> CHR ''B''" "c \<noteq> CHR ''C''" "c \<noteq> CHR ''D''"
  shows "process_keypress fs (Some c # inp) E = Running fs inp (editor_insert_char (of_char c) E)"
proof -
  have e: "c \<noteq> CHR 0x1B" using assms by auto
  have n: "(of_char c :: int) \<noteq> 13" "(of_char c :: int) \<noteq> 17" "(of_char c :: int) \<noteq> 19" "(of_char c :: int) \<noteq> 127"
    using assms by auto
  have a: "(of_char c :: int) \<noteq> of_char (CHR ''A'')" "(of_char c :: int) \<noteq> of_char (CHR ''B'')"
     "(of_char c :: int) \<noteq> of_char (CHR ''C'')" "(of_char c :: int) \<noteq> of_char (CHR ''D'')"
    using assms(3-6) by (simp_all only: of_char_eq_iff not_False_eq_True)
  show ?thesis unfolding process_keypress_def read_key_plain[OF e]
    using assms(1,2) n a by simp
qed

lemma main_loop_printable:
  assumes "32 \<le> (of_char c :: int)" "(of_char c :: int) < 127"
    "c \<noteq> CHR ''A''" "c \<noteq> CHR ''B''" "c \<noteq> CHR ''C''" "c \<noteq> CHR ''D''"
  shows "main_loop (None # sched) fs (Some c # inp) E =
         main_loop sched fs inp (editor_insert_char (of_char c) (editor_scroll E))"
  by (simp add: key_printable[OF assms] refresh_screen_def)

lemma typed_abc_run:
  "main_loop [None, None, None] ex_fs [Some (CHR ''a''), Some (CHR ''b''), Some (CHR ''c'')]
     (startup 256 ex_fs None None) = Running ex_fs [] typed_abc"
proof -
  let ?msg = "''Help: Ctrl+S=Save | Ctrl+Q=Quit''"
  let ?E = "\<lambda>x rs m. \<lparr>screen_rows = 24, screen_cols = 80, cursor_x = x, cursor_y = 0,
      row_offset = 0, col_offset = 0, rows = rs, filename = [], modified = m,
      status_msg = ?msg\<rparr>"
  have s0: "startup 256 ex_fs None None = ?E 0 [] False"
    by (simp add: startup_def init_editor_def get_window_size_def set_status_message_def)
  have sc: "\<And>x rs m. 0 \<le> x \<Longrightarrow> x < 80 \<Longrightarrow> editor_scroll (?E x rs m) = ?E x rs m"
    by (simp add: editor_scroll_def)
  have a: "editor_insert_char 97 (?E 0 [] False) = ?E 1 [''a''] True"
    by (simp add: editor_insert_char_past_end char_of_def)
  have b: "editor_insert_char 98 (?E 1 [''a''] True) = ?E 2 [''ab''] True"
    by (simp add: editor_insert_char_on_line char_of_def)
  have c: "editor_insert_char 99 (?E 2 [''ab''] True) = ?E 3 [''abc''] True"
    by (simp add: editor_insert_char_on_line char_of_def)
  show ?thesis
    unfolding s0 by (simp add: main_loop_printable sc a b c typed_abc_def del: main_loop.simps(2))
qed

text \<open>
  A plain \<^verbatim>\<open>A\<close>, \<^verbatim>\<open>B\<close>, \<^verbatim>\<open>C\<close> or \<^verbatim>\<open>D\<close> is read as the arrow key that ends in that letter: it
  moves the cursor and leaves the lines as they are.
\<close>

lemma plain_letter_is_arrow:
  assumes "c = CHR ''A'' \<or> c = CHR ''B'' \<or> c = CHR ''C'' \<or> c = CHR ''D''"
  shows "read_key (Some c # inp) = read_key (Some (CHR 0x1B) # Some (CHR ''['') # Some c # inp)"
    and "process_keypress fs (Some c # inp) E = Running fs inp (editor_move_cursor (of_char c) E)"
    and "rows (editor_move_cursor (of_char c) E) = rows E"
proof -
  from assms have e: "c \<noteq> CHR 0x1B" by auto
  show "read_key (Some c # inp) = read_key (Some (CHR 0x1B) # Some (CHR ''['') # Some c # inp)"
    using assms by (auto simp: read_key_def)
  show "process_keypress fs (Some c # inp) E = Running fs inp (editor_move_cursor (of_char c) E)"
    unfolding process_keypress_def read_key_plain[OF e] using assms by auto
  show "rows (editor_move_cursor (of_char c) E) = rows E"
    by (simp add: move_cursor_switch move_switch_def Let_def)
qed

text \<open>
  The arrow sequences move the cursor; any other escape sequence of up to three bytes is
  read and changes nothing.
\<close>

lemma unknown_escape_is_noop:
  assumes "s2 \<noteq> CHR ''A''" "s2 \<noteq> CHR ''B''" "s2 \<noteq> CHR ''C''" "s2 \<noteq> CHR ''D''"
  shows "process_keypress fs (Some (CHR 0x1B) # Some (CHR ''['') # Some s2 # inp) E
           = Running fs inp E"
    and "s1 \<noteq> CHR ''['' \<Longrightarrow>
         process_keypress fs (Some (CHR 0x1B) # Some s1 # inp) E = Running fs inp E"
    and "process_keypress fs [Some (CHR 0x1B)] E = Running fs [] E"
  using assms by (simp_all add: process_keypress_def read_key_def)

lemma arrow_key_moves:
  assumes "s2 = CHR ''A'' \<or> s2 = CHR ''B'' \<or> s2 = CHR ''C'' \<or> s2 = CHR ''D''"
  shows "process_keypress fs (Some (CHR 0x1B) # Some (CHR ''['') # Some s2 # inp) E
           = Running fs inp (editor_move_cursor (of_char s2) E)"
  using assms by (auto simp: process_keypress_def read_key_def)

section \<open>Enter, then Backspace\<close>

lemma split_then_backspace:
  assumes y: "cursor_y E = int r" and r: "r < length (rows E)"
    and x: "cursor_x E = int c" and c: "c \<le> length (rows E ! r)"
  shows "editor_delete_char (editor_insert_newline E) = E\<lparr>modified := True\<rparr>"
proof -
  define E1 where "E1 = editor_insert_newline E"
  have rows_eq: "take r (rows E) @ rows E ! r # drop (Suc r) (rows E) = rows E"
    using r by (simp add: id_take_nth_drop[symmetric])
  have E1: "E1 = E\<lparr>rows := take r (rows E) @ take c (rows E ! r) # drop c (rows E ! r)
                         # drop (Suc r) (rows E),
                    modified := True, cursor_y := int r + 1, cursor_x := 0\<rparr>"
  proof (cases "c = 0")
    case True
    then have "cursor_x E = 0" using x by simp
    from newline_line_start[OF y r this] True r show ?thesis
      by (simp add: E1_def Cons_nth_drop_Suc)
  next
    case False
    from newline_split[OF y r x False c] show ?thesis by (simp add: E1_def)
  qed
  have y1: "cursor_y E1 = int (Suc r)" by (simp add: E1)
  have r1: "Suc r < length (rows E1)" using r by (simp add: E1)
  have x1: "cursor_x E1 = 0" by (simp add: E1)
  have n0: "rows E1 ! r = take c (rows E ! r)" using r by (simp add: E1 nth_append)
  have n1: "rows E1 ! Suc r = drop c (rows E ! r)" using r by (simp add: E1 nth_append)
  have t: "take r (rows E1) = take r (rows E)" using r by (simp add: E1)
  have d: "drop (Suc (Suc r)) (rows E1) = drop (Suc r) (rows E)" using r by (simp add: E1)
  have len: "int (length (take c (rows E ! r))) = cursor_x E" using c x by simp
  have "editor_delete_char E1 =
    E1\<lparr>rows := take r (rows E) @ rows E ! r # drop (Suc r) (rows E),
      modified := True, cursor_y := int r, cursor_x := cursor_x E\<rparr>"
    unfolding delete_char_merge[OF y1 r1 x1] n0 n1 t d len by simp
  also have "\<dots> = E\<lparr>modified := True\<rparr>"
    unfolding rows_eq by (simp add: E1 y[symmetric])
  finally show ?thesis unfolding E1_def .
qed

section \<open>Scrolling\<close>

lemma editor_scroll_eq:
  "editor_scroll E =
     E\<lparr>row_offset := fst (recompute_viewport (cursor_y E, cursor_x E) (row_offset E, col_offset E)
                           (screen_rows E) (screen_cols E)),
       col_offset := snd (recompute_viewport (cursor_y E, cursor_x E) (row_offset E, col_offset E)
                           (screen_rows E) (screen_cols E))\<rparr>"
  by (simp add: editor_scroll_def recompute_viewport_def Let_def)

lemma editor_scroll_fields:
  "cursor_y (editor_scroll E) = cursor_y E" "cursor_x (editor_scroll E) = cursor_x E"
  "rows (editor_scroll E) = rows E" "screen_rows (editor_scroll E) = screen_rows E"
  "screen_cols (editor_scroll E) = screen_cols E"
  by (simp_all add: editor_scroll_eq)

lemma editor_scroll_row_offset:
  "row_offset (editor_scroll E) =
    (if cursor_y E < row_offset E
     then (if 0 \<ge> screen_rows E - 2 then cursor_y E - (screen_rows E - 2) + 1 else cursor_y E)
     else if cursor_y E \<ge> row_offset E + (screen_rows E - 2)
     then cursor_y E - (screen_rows E - 2) + 1 else row_offset E)"
  by (simp add: editor_scroll_eq recompute_viewport_def Let_def)

lemma editor_scroll_col_offset:
  "col_offset (editor_scroll E) =
    (if cursor_x E < col_offset E
     then (if 0 \<ge> screen_cols E then cursor_x E - screen_cols E + 1 else cursor_x E)
     else if cursor_x E \<ge> col_offset E + screen_cols E
     then cursor_x E - screen_cols E + 1 else col_offset E)"
  by (simp add: editor_scroll_eq recompute_viewport_def Let_def)

lemma editor_scroll_in_view:
  assumes "1 \<le> screen_rows E - 2" "1 \<le> screen_cols E"
  shows "row_offset (editor_scroll E) \<le> cursor_y E"
    "cursor_y E < row_offset (editor_scroll E) + (screen_rows E - 2)"
    "col_offset (editor_scroll E) \<le> cursor_x E"
    "cursor_x E < col_offset (editor_scroll E) + screen_cols E"
  using assms by (simp_all add: editor_scroll_row_offset editor_scroll_col_offset)

lemma editor_scroll_unchanged:
  assumes "row_offset E \<le> cursor_y E" "cursor_y E < row_offset E + (screen_rows E - 2)"
    "col_offset E \<le> cursor_x E" "cursor_x E < col_offset E + screen_cols E"
  shows "editor_scroll E = E"
  using assms by (simp add: editor_scroll_def)


lemma key_down_moves:
  "process_keypress fs (key_down @ inp) E = Running fs inp (editor_move_cursor 66 E)"
  by (simp add: key_down_def process_keypress_def read_key_def)

lemma move_switch_down:
  "move_switch 66 E =
     (if cursor_y E < num_rows E - 1 then E\<lparr>cursor_y := cursor_y E + 1\<rparr> else E)"
  by (simp add: move_switch_def)

lemma move_down_fields:
  "rows (editor_move_cursor 66 E) = rows E"
  "row_offset (editor_move_cursor 66 E) = row_offset E"
  "screen_rows (editor_move_cursor 66 E) = screen_rows E"
  by (simp_all add: move_cursor_switch move_switch_down Let_def)

lemma move_down_cursor_y:
  "0 \<le> cursor_y E \<Longrightarrow> cursor_y E < num_rows E - 1 \<Longrightarrow>
   cursor_y (editor_move_cursor 66 E) = cursor_y E + 1"
  by (auto simp add: move_cursor_switch move_switch_down Let_def)

lemma down_run:
  "screen_rows E = 5 \<Longrightarrow> 0 \<le> cursor_y E \<Longrightarrow> row_offset E = max 0 (cursor_y E - 3) \<Longrightarrow>
   cursor_y E + int n < num_rows E \<Longrightarrow>
   \<exists>E'. main_loop (replicate n None) fs (concat (replicate n key_down) @ inp) E
          = Running fs inp E' \<and>
        cursor_y E' = cursor_y E + int n \<and> row_offset E' = max 0 (cursor_y E' - 3) \<and>
        screen_rows E' = 5"
proof (induction n arbitrary: E)
  case 0
  then show ?case by simp
next
  case (Suc n)
  define E1 where "E1 = editor_move_cursor 66 (editor_scroll E)"
  have lt: "cursor_y (editor_scroll E) < num_rows (editor_scroll E) - 1"
    using Suc.prems(4) by (simp add: editor_scroll_fields)
  have ge: "0 \<le> cursor_y (editor_scroll E)"
    using Suc.prems(2) by (simp add: editor_scroll_fields)
  have y1: "cursor_y E1 = cursor_y E + 1"
    unfolding E1_def move_down_cursor_y[OF ge lt] by (simp add: editor_scroll_fields)
  have r1: "rows E1 = rows E" by (simp add: E1_def move_down_fields editor_scroll_fields)
  have s1: "screen_rows E1 = 5"
    using Suc.prems(1) by (simp add: E1_def move_down_fields editor_scroll_fields)
  have o1: "row_offset E1 = max 0 (cursor_y E1 - 3)"
    using Suc.prems(1,2,3) by (simp add: y1) (simp add: E1_def move_down_fields editor_scroll_row_offset)
  have p: "0 \<le> cursor_y E1" "cursor_y E1 + int n < num_rows E1"
    using Suc.prems(2,4) by (simp_all add: y1 r1)
  from Suc.IH[OF s1 p(1) o1 p(2)] obtain E' where
    E': "main_loop (replicate n None) fs (concat (replicate n key_down) @ inp) E1
          = Running fs inp E'"
      "cursor_y E' = cursor_y E1 + int n" "row_offset E' = max 0 (cursor_y E' - 3)"
      "screen_rows E' = 5" by blast
  have "main_loop (replicate (Suc n) None) fs (concat (replicate (Suc n) key_down) @ inp) E
      = main_loop (replicate n None) fs (concat (replicate n key_down) @ inp) E1"
    by (simp add: refresh_screen_def key_down_moves E1_def)
  with E' y1 show ?case by auto
qed

section \<open>Saving\<close>

text \<open>
  What \<^verbatim>\<open>save_file\<close> does in each of its three cases. With no file name, or when the file
  does not open, only the status message changes. When the file opens, the bytes that the
  file system takes replace the file, the dirty flag is cleared and the message says
  \<^verbatim>\<open>Saved\<close>.
\<close>

lemma save_file_cases:
  "filename E = [] \<Longrightarrow> save_file fs E = (fs, E\<lparr>status_msg := ''ERROR: No filename''\<rparr>)"
  "filename E \<noteq> [] \<Longrightarrow> fopen_w_error fs (filename E) = Some err \<Longrightarrow>
     save_file fs E = (fs, E\<lparr>status_msg := take 79 (''I/O error: '' @ err)\<rparr>)"
  "filename E \<noteq> [] \<Longrightarrow> fopen_w_error fs (filename E) = None \<Longrightarrow>
     save_file fs E =
       (fs\<lparr>files := (files fs)(filename E \<mapsto>
              written fs (filename E) (concat (map fprintf_line (rows E))))\<rparr>,
        E\<lparr>modified := False, status_msg := take 79 (''Saved: '' @ filename E)\<rparr>)"
  by (simp_all add: save_file_def set_status_message_def)

text \<open>The three cases on examples: no file name, a file that does not open, a save that works.\<close>

lemma save_file_examples:
  "save_file ex_fs ex_new = (ex_fs, ex_new\<lparr>status_msg := ''ERROR: No filename''\<rparr>)"
  "save_file ex_readonly_fs ex_named =
     (ex_readonly_fs, ex_named\<lparr>status_msg := ''I/O error: Permission denied''\<rparr>)"
  "save_file ex_fs ex_named =
     (ex_fs\<lparr>files := [''f'' \<mapsto> [CHR ''a'', CHR ''b'', CHR 0x0A, CHR ''c'', CHR ''d'', CHR 0x0A]]\<rparr>,
      ex_named\<lparr>modified := False, status_msg := ''Saved: f''\<rparr>)"
  by (simp_all add: save_file_def written_def fprintf_line_def set_status_message_def
      ex_fs_def ex_readonly_fs_def ex_named_def ex_new_def)

text \<open>The dirty flag is cleared exactly when the file opens, written or not.\<close>

lemma save_file_clears_modified:
  "modified E \<Longrightarrow>
   modified (snd (save_file fs E)) = False
     \<longleftrightarrow> filename E \<noteq> [] \<and> fopen_w_error fs (filename E) = None"
  by (cases "fopen_w_error fs (filename E)") (simp_all add: save_file_def set_status_message_def)

text \<open>After Ctrl-S the editor goes on, whatever the save did.\<close>

lemma save_key_continues:
  "process_keypress fs (Some (CHR 0x13) # inp) E =
     Running (fst (save_file fs E)) inp (snd (save_file fs E))"
  by (simp add: process_keypress_def read_key_def split: prod.splits)

section \<open>Saving and opening again\<close>

lemma read_lines_eof: "read_lines [] E = E"
  by (simp add: read_lines.simps[of "[]"])

lemma fprintf_line_clean: "CHR 0x00 \<notin> set r \<Longrightarrow> fprintf_line r = r @ [CHR 0x0A]"
proof -
  assume "CHR 0x00 \<notin> set r"
  then have "\<forall>c \<in> set r. c \<noteq> CHR 0x00" by blast
  then have "takeWhile (\<lambda>c. c \<noteq> CHR 0x00) r = r" by (simp add: takeWhile_eq_all_conv)
  then show ?thesis by (simp add: fprintf_line_def)
qed

lemma getline_line:
  "CHR 0x0A \<notin> set r \<Longrightarrow> getline (r @ CHR 0x0A # rest) = Some (r @ [CHR 0x0A], rest)"
  by (induction r) auto

lemma strip_eol_line:
  assumes "CHR 0x0A \<notin> set r" "CHR 0x0D \<notin> set r"
  shows "strip_eol (r @ [CHR 0x0A]) (length (r @ [CHR 0x0A])) = length r"
proof -
  have "strip_eol (r @ [CHR 0x0A]) (length r) = length r"
  proof (cases "length r")
    case 0
    then show ?thesis by simp
  next
    case (Suc n)
    then have "r ! n \<in> set r" by simp
    then have "r ! n \<noteq> CHR 0x0A" "r ! n \<noteq> CHR 0x0D" using assms by auto
    then show ?thesis using Suc by (simp add: nth_append)
  qed
  then show ?thesis by simp
qed

lemma read_lines_step:
  assumes "CHR 0x0A \<notin> set r" "CHR 0x0D \<notin> set r"
  shows "read_lines (r @ CHR 0x0A # rest) E =
         read_lines rest (E\<lparr>rows := rows E @ [r], modified := True\<rparr>)"
proof -
  have "read_lines (r @ CHR 0x0A # rest) E =
      read_lines rest (editor_insert_row (num_rows E) (r @ [CHR 0x0A])
         (strip_eol (r @ [CHR 0x0A]) (length (r @ [CHR 0x0A]))) E)"
    by (subst read_lines.simps) (simp add: getline_line[OF assms(1)])
  also have "\<dots> = read_lines rest (E\<lparr>rows := rows E @ [r], modified := True\<rparr>)"
    unfolding strip_eol_line[OF assms] insert_row_append by simp
  finally show ?thesis .
qed

lemma read_lines_saved:
  "\<forall>r \<in> set rs. CHR 0x0A \<notin> set r \<and> CHR 0x0D \<notin> set r \<and> CHR 0x00 \<notin> set r \<Longrightarrow>
   rows (read_lines (concat (map fprintf_line rs)) E) = rows E @ rs"
proof (induction rs arbitrary: E)
  case Nil
  then show ?case by (subst read_lines.simps) simp
next
  case (Cons r rs)
  then have r: "CHR 0x0A \<notin> set r" "CHR 0x0D \<notin> set r" "CHR 0x00 \<notin> set r" by simp_all
  have "concat (map fprintf_line (r # rs)) = r @ CHR 0x0A # concat (map fprintf_line rs)"
    by (simp add: fprintf_line_clean[OF r(3)])
  then show ?case using Cons by (simp add: read_lines_step[OF r(1,2)])
qed

lemma rows_open_file:
  "files fs p = Some data \<Longrightarrow> rows E = [] \<Longrightarrow>
   rows (open_file m fs (Some p) E) = rows (read_lines data (E\<lparr>filename := take (m - 1) p\<rparr>))"
  by (simp add: open_file_def set_status_message_def)

text \<open>
  Saving and opening again gives back the lines when the write succeeds and no line has a
  LF, CR or NUL byte in it: for no line, one line, or many, empty or not.
\<close>

lemma save_then_open_round_trip:
  assumes "filename E \<noteq> []" "fopen_w_error fs (filename E) = None"
    and "\<forall>r \<in> set (rows E). CHR 0x0A \<notin> set r \<and> CHR 0x0D \<notin> set r \<and> CHR 0x00 \<notin> set r"
    and "fwrite_limit fs (filename E) = None"
  shows "rows (startup m (fst (save_file fs E)) (Some (filename E)) ws) = rows E"
proof -
  let ?data = "concat (map fprintf_line (rows E))"
  have f: "files (fst (save_file fs E)) (filename E) = Some ?data"
    using assms(1,2,4) by (simp add: save_file_def written_def)
  have i: "rows (init_editor ws) = []" by (simp add: init_editor_def split: prod.splits)
  have "rows (startup m (fst (save_file fs E)) (Some (filename E)) ws) =
        rows (read_lines ?data ((init_editor ws)\<lparr>filename := take (m - 1) (filename E)\<rparr>))"
    by (simp add: startup_def rows_open_file[OF f i])
  also have "\<dots> = rows ((init_editor ws)\<lparr>filename := take (m - 1) (filename E)\<rparr>) @ rows E"
    by (rule read_lines_saved[OF assms(3)])
  also have "\<dots> = rows E" by (simp add: i)
  finally show ?thesis .
qed

lemma save_then_open_round_trip_examples:
  "rows (startup 256 (fst (save_file ex_fs ex_no_lines)) (Some ''f'') None) = [] \<and>
   rows (startup 256 (fst (save_file ex_fs ex_one_empty_line)) (Some ''f'') None) = [[]] \<and>
   rows (startup 256 (fst (save_file ex_fs ex_mixed)) (Some ''f'') None) = [[], ''ab'', [], ''c'']"
proof (intro conjI)
  have w: "fopen_w_error ex_fs ''f'' = None" "fwrite_limit ex_fs ''f'' = None"
    by (simp_all add: ex_fs_def)
  have a: "filename ex_no_lines \<noteq> []" "fopen_w_error ex_fs (filename ex_no_lines) = None"
    "\<forall>r \<in> set (rows ex_no_lines). CHR 0x0A \<notin> set r \<and> CHR 0x0D \<notin> set r \<and> CHR 0x00 \<notin> set r"
    "filename ex_no_lines = ''f''" "rows ex_no_lines = []"
    "fwrite_limit ex_fs (filename ex_no_lines) = None"
    by (simp_all add: ex_no_lines_def ex_new_def w)
  from save_then_open_round_trip[OF a(1,2,3,6), of 256 None]
  show "rows (startup 256 (fst (save_file ex_fs ex_no_lines)) (Some ''f'') None) = []"
    unfolding a(4,5) .
  have b: "filename ex_one_empty_line \<noteq> []"
    "fopen_w_error ex_fs (filename ex_one_empty_line) = None"
    "\<forall>r \<in> set (rows ex_one_empty_line).
        CHR 0x0A \<notin> set r \<and> CHR 0x0D \<notin> set r \<and> CHR 0x00 \<notin> set r"
    "filename ex_one_empty_line = ''f''" "rows ex_one_empty_line = [[]]"
    "fwrite_limit ex_fs (filename ex_one_empty_line) = None"
    by (simp_all add: ex_one_empty_line_def ex_new_def w)
  from save_then_open_round_trip[OF b(1,2,3,6), of 256 None]
  show "rows (startup 256 (fst (save_file ex_fs ex_one_empty_line)) (Some ''f'') None) = [[]]"
    unfolding b(4,5) .
  have c: "filename ex_mixed \<noteq> []" "fopen_w_error ex_fs (filename ex_mixed) = None"
    "\<forall>r \<in> set (rows ex_mixed). CHR 0x0A \<notin> set r \<and> CHR 0x0D \<notin> set r \<and> CHR 0x00 \<notin> set r"
    "filename ex_mixed = ''f''" "rows ex_mixed = [[], ''ab'', [], ''c'']"
    "fwrite_limit ex_fs (filename ex_mixed) = None"
    by (simp_all add: ex_mixed_def ex_new_def w)
  from save_then_open_round_trip[OF c(1,2,3,6), of 256 None]
  show "rows (startup 256 (fst (save_file ex_fs ex_mixed)) (Some ''f'') None)
          = [[], ''ab'', [], ''c'']"
    unfolding c(4,5) .
qed

section \<open>The status bar\<close>

lemma pad_status_replicate:
  "pad_status ab len cols = ab @ replicate (nat (cols - len)) (CHR '' '')"
proof (induction ab len cols rule: pad_status.induct)
  case (1 ab len cols)
  show ?case
  proof (cases "len < cols")
    case True
    then have n: "nat (cols - len) = Suc (nat (cols - (len + 1)))" by simp
    show ?thesis
      using True 1[OF True]
      by (subst pad_status.simps) (simp add: ab_append_def n replicate_app_Cons_same del: pad_status.simps)
  next
    case False
    then show ?thesis by simp
  qed
qed

text \<open>
  Whatever the state, the bytes that \<^verbatim>\<open>draw_status_bar\<close> appends start with \<^verbatim>\<open>ESC [ 7\<close>, and
  the byte after these is not \<^verbatim>\<open>m\<close>.
\<close>

lemma draw_status_bar_start:
  assumes "draw_status_bar ab E = Some out"
  shows "take 3 (drop (length ab) out) = [CHR 0x1B, CHR ''['', CHR ''7''] \<and>
         take 4 (drop (length ab) out) \<noteq> [CHR 0x1B, CHR ''['', CHR ''7'', CHR ''m'']"
proof -
  define body where "body = ''['' @ (if filename E \<noteq> [] then filename E else ''[No Name]'') @ ''] ''
                   @ (if modified E then ''*'' else [])"
  define status where "status = take 159 body @ [CHR 0x00]"
  define len1 where "len1 = (if int (length body) > screen_cols E then screen_cols E
                             else int (length body))"
  define rest where "rest = take (nat len1) status
      @ replicate (nat (screen_cols E - len1)) (CHR '' '')
      @ [CHR 0x1B, CHR ''['', CHR ''m'', CHR 0x0D, CHR 0x0A]"
  have out: "out = ab @ [CHR 0x1B, CHR ''['', CHR ''7''] @ rest"
    using assms
    unfolding draw_status_bar_def Let_def body_def status_def len1_def rest_def ab_append_def
      pad_status_replicate
    by (simp split: if_splits)
  have s0: "status = CHR ''['' # tl status" by (simp add: status_def body_def)
  have "rest \<noteq> [] \<and> hd rest \<noteq> CHR ''m''"
  proof (cases "nat len1")
    case 0
    then show ?thesis by (cases "nat (screen_cols E - len1)") (simp_all add: rest_def)
  next
    case (Suc n)
    then have "take (nat len1) status = CHR ''['' # take n (tl status)"
      by (subst s0) simp
    then show ?thesis by (simp add: rest_def)
  qed
  then obtain x xs where r: "rest = x # xs" "x \<noteq> CHR ''m''" by (cases rest) auto
  show ?thesis by (simp add: out r)
qed

section \<open>The claims\<close>

subsection \<open>C1: the cursor invariant\<close>

text \<open>
  C1 as stated fails for \<^verbatim>\<open>editor_insert_row\<close>, which does not clamp the cursor: after
  typing \<^verbatim>\<open>abc\<close> the cursor is at (0, 3), and an empty line inserted at index 0 leaves it
  in column 3 of a line of length 0.
\<close>

theorem insert_row_breaks_cursor_invariant:
  "main_loop [None, None, None] ex_fs [Some (CHR ''a''), Some (CHR ''b''), Some (CHR ''c'')]
     (startup 256 ex_fs None None) = Running ex_fs [] typed_abc \<and>
   \<not> cursor_ok (editor_insert_row 0 [] 0 typed_abc)"
proof
  show "main_loop [None, None, None] ex_fs [Some (CHR ''a''), Some (CHR ''b''), Some (CHR ''c'')]
     (startup 256 ex_fs None None) = Running ex_fs [] typed_abc" by (rule typed_abc_run)
  show "\<not> cursor_ok (editor_insert_row 0 [] 0 typed_abc)"
    by (simp add: cursor_ok_def insert_row_0 typed_abc_def)
qed

text \<open>
  C1, as amended. Every state that the main loop reaches from start-up satisfies the cursor
  invariant (the row is between 0 and the number of lines; on a line the column is between
  0 and the length of that line, past the last line it is 0). From any state that
  satisfies it, each single \<^verbatim>\<open>editor_insert_char\<close>, \<^verbatim>\<open>editor_delete_char\<close>,
  \<^verbatim>\<open>editor_insert_newline\<close>, \<^verbatim>\<open>editor_delete_row\<close> and \<^verbatim>\<open>editor_move_cursor\<close> leads to a
  state that satisfies it, and so does \<^verbatim>\<open>editor_insert_row\<close> at an index greater than the
  cursor row or with the cursor in column 0.
\<close>

theorem cursor_invariant_kept:
  "(main_loop sched fs inp (startup m fs0 arg ws) = Running fs' inp' E0 \<longrightarrow> cursor_ok E0) \<and>
   (cursor_ok E \<longrightarrow>
      cursor_ok (editor_insert_char c E) \<and> cursor_ok (editor_delete_char E) \<and>
      cursor_ok (editor_insert_newline E) \<and> cursor_ok (editor_delete_row at E) \<and>
      cursor_ok (editor_move_cursor key E) \<and>
      (cursor_y E < at' \<or> cursor_x E = 0 \<longrightarrow> cursor_ok (editor_insert_row at' s len E)))"
proof (intro conjI impI)
  assume "main_loop sched fs inp (startup m fs0 arg ws) = Running fs' inp' E0"
  with cursor_ok_startup show "cursor_ok E0" by (rule cursor_ok_main_loop)
next
  assume ok: "cursor_ok E"
  show "cursor_ok (editor_insert_char c E)" using ok by (rule cursor_ok_insert_char)
  show "cursor_ok (editor_delete_char E)" using ok by (rule cursor_ok_delete_char)
  show "cursor_ok (editor_insert_newline E)" using ok by (rule cursor_ok_insert_newline)
  show "cursor_ok (editor_delete_row at E)" using ok by (rule cursor_ok_delete_row)
  show "cursor_ok (editor_move_cursor key E)" using ok by (rule cursor_ok_move_cursor)
  assume "cursor_y E < at' \<or> cursor_x E = 0"
  with ok show "cursor_ok (editor_insert_row at' s len E)" by (rule cursor_ok_insert_row)
qed

text \<open>The theorem at the state reached by typing \<^verbatim>\<open>abc\<close>.\<close>

theorem cursor_invariant_kept_witness:
  "cursor_ok typed_abc \<and>
   cursor_ok (editor_insert_char 100 typed_abc) \<and> cursor_ok (editor_delete_char typed_abc) \<and>
   cursor_ok (editor_insert_newline typed_abc) \<and> cursor_ok (editor_delete_row 0 typed_abc) \<and>
   cursor_ok (editor_move_cursor 68 typed_abc) \<and>
   cursor_ok (editor_insert_row 1 ''xy'' 2 typed_abc)"
proof -
  have lt: "cursor_y typed_abc < 1 \<or> cursor_x typed_abc = 0" by (simp add: typed_abc_def)
  note w = cursor_invariant_kept[of "[None, None, None]" ex_fs
      "[Some (CHR ''a''), Some (CHR ''b''), Some (CHR ''c'')]" 256 ex_fs None None ex_fs "[]"
      typed_abc typed_abc 100 0 68 1 "''xy''" 2]
  have ok: "cursor_ok typed_abc" using w[THEN conjunct1] typed_abc_run by (rule mp)
  from w[THEN conjunct2] ok lt show ?thesis by simp
qed

subsection \<open>C2: printable bytes and arrow keys\<close>

text \<open>
  C2 fails on the code. \<^verbatim>\<open>read_key\<close> returns the last byte of an arrow sequence, so
  \<^verbatim>\<open>ESC [ A\<close> and the plain byte \<^verbatim>\<open>A\<close> give the same key code, and \<^verbatim>\<open>process_keypress\<close> tests
  for the arrows before the printable range. The single byte \<^verbatim>\<open>A\<close> (65), which the claim
  says is inserted, moves the cursor up instead: nothing is inserted and the column does
  not advance.
\<close>

theorem plain_A_moves_cursor_up:
  "process_keypress ex_fs [Some (CHR ''A'')] ex_two_lines =
     Running ex_fs [] (ex_two_lines\<lparr>cursor_y := 0\<rparr>) \<and>
   read_key [Some (CHR ''A'')] = read_key [Some (CHR 0x1B), Some (CHR ''[''), Some (CHR ''A'')]"
  by (simp add: process_keypress_def read_key_def editor_move_cursor_def ex_two_lines_def
      ex_new_def)

subsection \<open>C3: Enter\<close>

text \<open>
  C3. With the cursor invariant, Enter (\<^verbatim>\<open>editor_insert_newline\<close>) follows four cases in
  this order. No line: the document becomes two empty lines, cursor (1, 0). Cursor row
  past the last line: one empty line is appended, cursor (new last index, 0). Column 0:
  an empty line is inserted before the cursor row, the line that was there is unchanged at
  the next index, cursor (row + 1, 0). Otherwise the line is cut to its first \<open>col\<close> bytes,
  a new line with the bytes from \<open>col\<close> on is inserted after it, cursor (row + 1, 0).
\<close>

theorem editor_insert_newline_cases:
  assumes ok: "cursor_ok E"
  shows
   "(num_rows E = 0 \<longrightarrow>
       rows (editor_insert_newline E) = [[], []] \<and>
       cursor_y (editor_insert_newline E) = 1 \<and> cursor_x (editor_insert_newline E) = 0) \<and>
    (num_rows E \<noteq> 0 \<and> num_rows E \<le> cursor_y E \<longrightarrow>
       rows (editor_insert_newline E) = rows E @ [[]] \<and>
       cursor_y (editor_insert_newline E) = num_rows (editor_insert_newline E) - 1 \<and>
       cursor_x (editor_insert_newline E) = 0) \<and>
    (num_rows E \<noteq> 0 \<and> cursor_y E < num_rows E \<and> cursor_x E = 0 \<longrightarrow>
       rows (editor_insert_newline E) =
         take (nat (cursor_y E)) (rows E) @ [] # drop (nat (cursor_y E)) (rows E) \<and>
       rows (editor_insert_newline E) ! (nat (cursor_y E) + 1) = rows E ! nat (cursor_y E) \<and>
       cursor_y (editor_insert_newline E) = cursor_y E + 1 \<and>
       cursor_x (editor_insert_newline E) = 0) \<and>
    (num_rows E \<noteq> 0 \<and> cursor_y E < num_rows E \<and> cursor_x E \<noteq> 0 \<longrightarrow>
       rows (editor_insert_newline E) =
         take (nat (cursor_y E)) (rows E)
           @ take (nat (cursor_x E)) (rows E ! nat (cursor_y E))
           # drop (nat (cursor_x E)) (rows E ! nat (cursor_y E))
           # drop (nat (cursor_y E) + 1) (rows E) \<and>
       length (rows (editor_insert_newline E) ! nat (cursor_y E)) = nat (cursor_x E) \<and>
       cursor_y (editor_insert_newline E) = cursor_y E + 1 \<and>
       cursor_x (editor_insert_newline E) = 0)"
proof (intro conjI impI)
  assume "num_rows E = 0"
  then have e: "rows E = []" by simp
  show "rows (editor_insert_newline E) = [[], []]" by (simp add: newline_empty[OF e])
  show "cursor_y (editor_insert_newline E) = 1" by (simp add: newline_empty[OF e])
  show "cursor_x (editor_insert_newline E) = 0" by (simp add: newline_empty[OF e])
next
  assume "num_rows E \<noteq> 0 \<and> num_rows E \<le> cursor_y E"
  then have p: "rows E \<noteq> []" "num_rows E \<le> cursor_y E" by simp_all
  show "rows (editor_insert_newline E) = rows E @ [[]]" by (simp add: newline_past_end[OF p])
  show "cursor_y (editor_insert_newline E) = num_rows (editor_insert_newline E) - 1"
    by (simp add: newline_past_end[OF p])
  show "cursor_x (editor_insert_newline E) = 0" by (simp add: newline_past_end[OF p])
next
  assume a: "num_rows E \<noteq> 0 \<and> cursor_y E < num_rows E \<and> cursor_x E = 0"
  with cursor_on_line[OF ok] obtain r c where
    rc: "cursor_y E = int r" "r < length (rows E)" "cursor_x E = int c" by blast
  from a have x: "cursor_x E = 0" by simp
  note eq = newline_line_start[OF rc(1,2) x]
  show "rows (editor_insert_newline E) =
         take (nat (cursor_y E)) (rows E) @ [] # drop (nat (cursor_y E)) (rows E)"
    by (simp add: eq rc(1))
  show "rows (editor_insert_newline E) ! (nat (cursor_y E) + 1) = rows E ! nat (cursor_y E)"
    using rc(2) by (simp add: eq rc(1) nth_append)
  show "cursor_y (editor_insert_newline E) = cursor_y E + 1" by (simp add: eq rc(1))
  show "cursor_x (editor_insert_newline E) = 0" by (simp add: eq)
next
  assume a: "num_rows E \<noteq> 0 \<and> cursor_y E < num_rows E \<and> cursor_x E \<noteq> 0"
  with cursor_on_line[OF ok] obtain r c where
    rc: "cursor_y E = int r" "r < length (rows E)" "cursor_x E = int c" "c \<le> length (rows E ! r)"
    by blast
  from a rc have c0: "c \<noteq> 0" by simp
  note eq = newline_split[OF rc(1,2,3) c0 rc(4)]
  show "rows (editor_insert_newline E) =
         take (nat (cursor_y E)) (rows E)
           @ take (nat (cursor_x E)) (rows E ! nat (cursor_y E))
           # drop (nat (cursor_x E)) (rows E ! nat (cursor_y E))
           # drop (nat (cursor_y E) + 1) (rows E)"
    by (simp add: eq rc(1,3))
  show "length (rows (editor_insert_newline E) ! nat (cursor_y E)) = nat (cursor_x E)"
    using rc(2,4) by (simp add: eq rc(1,3) nth_append)
  show "cursor_y (editor_insert_newline E) = cursor_y E + 1" by (simp add: eq rc(1))
  show "cursor_x (editor_insert_newline E) = 0" by (simp add: eq)
qed

text \<open>
  One state for each case: no line; cursor past the only line; cursor at the start of the
  second line; \<^verbatim>\<open>abc\<close> with the cursor at its end.
\<close>

theorem editor_insert_newline_cases_witness:
  "(rows (editor_insert_newline ex_new) = [[], []] \<and>
    cursor_y (editor_insert_newline ex_new) = 1 \<and> cursor_x (editor_insert_newline ex_new) = 0) \<and>
   (rows (editor_insert_newline ex_past_end) = [''x'', []] \<and>
    cursor_y (editor_insert_newline ex_past_end) = 1 \<and>
    cursor_x (editor_insert_newline ex_past_end) = 0) \<and>
   (rows (editor_insert_newline ex_line_start) = [''ab'', [], ''cd''] \<and>
    cursor_y (editor_insert_newline ex_line_start) = 2 \<and>
    cursor_x (editor_insert_newline ex_line_start) = 0) \<and>
   (rows (editor_insert_newline typed_abc) = [''abc'', []] \<and>
    cursor_y (editor_insert_newline typed_abc) = 1 \<and>
    cursor_x (editor_insert_newline typed_abc) = 0)"
proof (intro conjI)
  have ok1: "cursor_ok ex_new" by (simp add: cursor_ok_def ex_new_def)
  have h1: "num_rows ex_new = 0" by (simp add: ex_new_def)
  from editor_insert_newline_cases[OF ok1, THEN conjunct1] h1
  show "rows (editor_insert_newline ex_new) = [[], []]"
    "cursor_y (editor_insert_newline ex_new) = 1" "cursor_x (editor_insert_newline ex_new) = 0"
    by simp_all
  have ok2: "cursor_ok ex_past_end" by (simp add: cursor_ok_def ex_past_end_def ex_new_def)
  have h2: "num_rows ex_past_end \<noteq> 0 \<and> num_rows ex_past_end \<le> cursor_y ex_past_end"
    "rows ex_past_end = [''x'']"
    by (simp_all add: ex_past_end_def ex_new_def)
  from editor_insert_newline_cases[OF ok2, THEN conjunct2, THEN conjunct1] h2
  show "rows (editor_insert_newline ex_past_end) = [''x'', []]"
    "cursor_y (editor_insert_newline ex_past_end) = 1"
    "cursor_x (editor_insert_newline ex_past_end) = 0"
    by simp_all
  have ok3: "cursor_ok ex_line_start" by (simp add: cursor_ok_def ex_line_start_def ex_new_def)
  have h3: "num_rows ex_line_start \<noteq> 0 \<and> cursor_y ex_line_start < num_rows ex_line_start
      \<and> cursor_x ex_line_start = 0" "rows ex_line_start = [''ab'', ''cd'']" "cursor_y ex_line_start = 1"
    by (simp_all add: ex_line_start_def ex_new_def)
  from editor_insert_newline_cases[OF ok3, THEN conjunct2, THEN conjunct2, THEN conjunct1] h3
  show "rows (editor_insert_newline ex_line_start) = [''ab'', [], ''cd'']"
    "cursor_y (editor_insert_newline ex_line_start) = 2"
    "cursor_x (editor_insert_newline ex_line_start) = 0"
    by simp_all
  have ok4: "cursor_ok typed_abc" by (simp add: cursor_ok_def typed_abc_def)
  have h4: "num_rows typed_abc \<noteq> 0 \<and> cursor_y typed_abc < num_rows typed_abc
      \<and> cursor_x typed_abc \<noteq> 0" "rows typed_abc = [''abc'']" "cursor_y typed_abc = 0"
      "cursor_x typed_abc = 3"
    by (simp_all add: typed_abc_def)
  from editor_insert_newline_cases[OF ok4, THEN conjunct2, THEN conjunct2, THEN conjunct2] h4
  show "rows (editor_insert_newline typed_abc) = [''abc'', []]"
    "cursor_y (editor_insert_newline typed_abc) = 1"
    "cursor_x (editor_insert_newline typed_abc) = 0"
    by simp_all
qed

subsection \<open>C4: Enter, then Backspace\<close>

text \<open>
  C4. With the cursor on a line, at a column between 0 and its length, Enter puts the
  cursor at (row + 1, 0), and Backspace there gives back the lines of the document, byte
  for byte, with the cursor at (row, col) again.
\<close>

theorem split_then_merge_restores:
  assumes "0 \<le> cursor_y E" "cursor_y E < num_rows E"
    "0 \<le> cursor_x E" "cursor_x E \<le> int (length (rows E ! nat (cursor_y E)))"
  shows "cursor_y (editor_insert_newline E) = cursor_y E + 1 \<and>
         cursor_x (editor_insert_newline E) = 0 \<and>
         rows (editor_delete_char (editor_insert_newline E)) = rows E \<and>
         cursor_y (editor_delete_char (editor_insert_newline E)) = cursor_y E \<and>
         cursor_x (editor_delete_char (editor_insert_newline E)) = cursor_x E"
proof -
  have ok: "cursor_ok E" using assms by (simp add: cursor_ok_def)
  from cursor_on_line[OF ok assms(2)] obtain r c where
    rc: "cursor_y E = int r" "r < length (rows E)" "cursor_x E = int c" "c \<le> length (rows E ! r)"
    by blast
  have after: "cursor_y (editor_insert_newline E) = cursor_y E + 1 \<and>
         cursor_x (editor_insert_newline E) = 0"
  proof (cases "c = 0")
    case True
    then have "cursor_x E = 0" using rc by simp
    from newline_line_start[OF rc(1,2) this] show ?thesis by (simp add: rc(1))
  next
    case False
    from newline_split[OF rc(1,2,3) False rc(4)] show ?thesis by (simp add: rc(1))
  qed
  show ?thesis using after by (simp add: split_then_backspace[OF rc])
qed

text \<open>At the end of \<^verbatim>\<open>abc\<close> (column 3) and at the start of a second line (column 0).\<close>

theorem split_then_merge_restores_witness:
  "rows (editor_delete_char (editor_insert_newline typed_abc)) = [''abc''] \<and>
   cursor_y (editor_delete_char (editor_insert_newline typed_abc)) = 0 \<and>
   cursor_x (editor_delete_char (editor_insert_newline typed_abc)) = 3 \<and>
   rows (editor_delete_char (editor_insert_newline ex_line_start)) = [''ab'', ''cd''] \<and>
   cursor_y (editor_delete_char (editor_insert_newline ex_line_start)) = 1 \<and>
   cursor_x (editor_delete_char (editor_insert_newline ex_line_start)) = 0"
proof -
  have a: "0 \<le> cursor_y typed_abc" "cursor_y typed_abc < num_rows typed_abc"
    "0 \<le> cursor_x typed_abc"
    "cursor_x typed_abc \<le> int (length (rows typed_abc ! nat (cursor_y typed_abc)))"
    by (simp_all add: typed_abc_def)
  have b: "0 \<le> cursor_y ex_line_start" "cursor_y ex_line_start < num_rows ex_line_start"
    "0 \<le> cursor_x ex_line_start"
    "cursor_x ex_line_start \<le> int (length (rows ex_line_start ! nat (cursor_y ex_line_start)))"
    by (simp_all add: ex_line_start_def ex_new_def)
  have v: "rows typed_abc = [''abc'']" "cursor_y typed_abc = 0" "cursor_x typed_abc = 3"
    "rows ex_line_start = [''ab'', ''cd'']" "cursor_y ex_line_start = 1"
    "cursor_x ex_line_start = 0"
    by (simp_all add: typed_abc_def ex_line_start_def ex_new_def)
  from split_then_merge_restores[OF a] split_then_merge_restores[OF b] show ?thesis
    unfolding v by simp
qed

subsection \<open>C5: Backspace\<close>

text \<open>
  C5. With the cursor invariant, Backspace (\<^verbatim>\<open>editor_delete_char\<close>): at a column above 0
  it removes the byte at index \<open>col - 1\<close> of the line and moves the cursor one column left;
  at column 0 of a line that has a line before it, it appends the line to the previous one,
  removes it, and puts the cursor on the previous row at the length that row had; at (0, 0)
  it changes nothing. On the lines \<^verbatim>\<open>ab\<close>, \<^verbatim>\<open>cd\<close> with the cursor at (1, 0) it gives the
  single line \<^verbatim>\<open>abcd\<close> with the cursor at (0, 2).
\<close>

theorem editor_delete_char_cases:
  assumes ok: "cursor_ok E"
  shows
   "(0 < cursor_x E \<longrightarrow>
       rows (editor_delete_char E) =
         (rows E)[nat (cursor_y E) :=
            take (nat (cursor_x E) - 1) (rows E ! nat (cursor_y E))
              @ drop (nat (cursor_x E)) (rows E ! nat (cursor_y E))] \<and>
       cursor_y (editor_delete_char E) = cursor_y E \<and>
       cursor_x (editor_delete_char E) = cursor_x E - 1) \<and>
    (cursor_x E = 0 \<and> 0 < cursor_y E \<and> cursor_y E < num_rows E \<longrightarrow>
       rows (editor_delete_char E) =
         take (nat (cursor_y E) - 1) (rows E)
           @ (rows E ! (nat (cursor_y E) - 1) @ rows E ! nat (cursor_y E))
           # drop (nat (cursor_y E) + 1) (rows E) \<and>
       cursor_y (editor_delete_char E) = cursor_y E - 1 \<and>
       cursor_x (editor_delete_char E) = int (length (rows E ! (nat (cursor_y E) - 1)))) \<and>
    (cursor_x E = 0 \<and> cursor_y E = 0 \<longrightarrow> editor_delete_char E = E) \<and>
    rows (editor_delete_char ex_line_start) = [''abcd''] \<and>
    cursor_y (editor_delete_char ex_line_start) = 0 \<and>
    cursor_x (editor_delete_char ex_line_start) = 2"
proof (intro conjI impI)
  assume a: "0 < cursor_x E"
  then have "cursor_y E < num_rows E" using ok by (simp add: cursor_ok_def split: if_splits)
  from cursor_on_line[OF ok this] obtain r c where
    rc: "cursor_y E = int r" "r < length (rows E)" "cursor_x E = int c" "c \<le> length (rows E ! r)"
    by blast
  from a rc have c0: "0 < c" by simp
  note eq = delete_char_left[OF rc(1,2,3) c0 rc(4)]
  show "rows (editor_delete_char E) =
         (rows E)[nat (cursor_y E) :=
            take (nat (cursor_x E) - 1) (rows E ! nat (cursor_y E))
              @ drop (nat (cursor_x E)) (rows E ! nat (cursor_y E))]"
    by (simp add: eq rc(1,3))
  show "cursor_y (editor_delete_char E) = cursor_y E" by (simp add: eq)
  show "cursor_x (editor_delete_char E) = cursor_x E - 1" by (simp add: eq rc(3))
next
  assume a: "cursor_x E = 0 \<and> 0 < cursor_y E \<and> cursor_y E < num_rows E"
  then have "cursor_y E < num_rows E" by simp
  from cursor_on_line[OF ok this] obtain r c where
    rc: "cursor_y E = int r" "r < length (rows E)" by blast
  from a rc obtain p where p: "r = Suc p" by (cases r) auto
  from a have x: "cursor_x E = 0" by simp
  note eq = delete_char_merge[OF rc(1)[unfolded p] rc(2)[unfolded p] x]
  have n: "nat (cursor_y E) = Suc p" using rc(1) p by simp
  show "rows (editor_delete_char E) =
         take (nat (cursor_y E) - 1) (rows E)
           @ (rows E ! (nat (cursor_y E) - 1) @ rows E ! nat (cursor_y E))
           # drop (nat (cursor_y E) + 1) (rows E)"
    unfolding n by (simp add: eq)
  show "cursor_y (editor_delete_char E) = cursor_y E - 1" by (simp add: eq rc(1) p)
  show "cursor_x (editor_delete_char E) = int (length (rows E ! (nat (cursor_y E) - 1)))"
    unfolding n by (simp add: eq)
next
  assume "cursor_x E = 0 \<and> cursor_y E = 0"
  then show "editor_delete_char E = E" by (simp add: delete_char_noop)
next
  have y: "cursor_y ex_line_start = int (Suc 0)" and r: "Suc 0 < length (rows ex_line_start)"
    and x: "cursor_x ex_line_start = 0"
    by (simp_all add: ex_line_start_def ex_new_def)
  note eq = delete_char_merge[OF y r x]
  show "rows (editor_delete_char ex_line_start) = [''abcd'']"
    by (simp add: eq) (simp add: ex_line_start_def ex_new_def)
  show "cursor_y (editor_delete_char ex_line_start) = 0" by (simp add: eq)
  show "cursor_x (editor_delete_char ex_line_start) = 2"
    by (simp add: eq) (simp add: ex_line_start_def ex_new_def)
qed

text \<open>One state for each case: the end of \<^verbatim>\<open>abc\<close>; the start of \<^verbatim>\<open>cd\<close>; the empty editor.\<close>

theorem editor_delete_char_cases_witness:
  "(rows (editor_delete_char typed_abc) = [''ab''] \<and>
    cursor_y (editor_delete_char typed_abc) = 0 \<and> cursor_x (editor_delete_char typed_abc) = 2) \<and>
   (rows (editor_delete_char ex_line_start) = [''abcd''] \<and>
    cursor_y (editor_delete_char ex_line_start) = 0 \<and>
    cursor_x (editor_delete_char ex_line_start) = 2) \<and>
   editor_delete_char ex_new = ex_new"
proof (intro conjI)
  have ok1: "cursor_ok typed_abc" by (simp add: cursor_ok_def typed_abc_def)
  have h1: "0 < cursor_x typed_abc" "rows typed_abc = [''abc'']" "cursor_y typed_abc = 0"
    "cursor_x typed_abc = 3" by (simp_all add: typed_abc_def)
  from editor_delete_char_cases[OF ok1, THEN conjunct1] h1
  show "rows (editor_delete_char typed_abc) = [''ab'']"
    "cursor_y (editor_delete_char typed_abc) = 0" "cursor_x (editor_delete_char typed_abc) = 2"
    by simp_all
  have ok2: "cursor_ok ex_line_start" by (simp add: cursor_ok_def ex_line_start_def ex_new_def)
  have h2: "cursor_x ex_line_start = 0 \<and> 0 < cursor_y ex_line_start
      \<and> cursor_y ex_line_start < num_rows ex_line_start"
    "rows ex_line_start = [''ab'', ''cd'']" "cursor_y ex_line_start = 1"
    by (simp_all add: ex_line_start_def ex_new_def)
  from editor_delete_char_cases[OF ok2, THEN conjunct2, THEN conjunct1] h2
  show "rows (editor_delete_char ex_line_start) = [''abcd'']"
    "cursor_y (editor_delete_char ex_line_start) = 0"
    "cursor_x (editor_delete_char ex_line_start) = 2"
    by simp_all
  have ok3: "cursor_ok ex_new" by (simp add: cursor_ok_def ex_new_def)
  have h3: "cursor_x ex_new = 0 \<and> cursor_y ex_new = 0" by (simp add: ex_new_def)
  from editor_delete_char_cases[OF ok3, THEN conjunct2, THEN conjunct2, THEN conjunct1] h3
  show "editor_delete_char ex_new = ex_new" by simp
qed

subsection \<open>C6: save, then open\<close>

text \<open>
  C6 fails on the code. \<^verbatim>\<open>open_file\<close> keeps a NUL byte that a line of the file has in it
  (it copies the line by its length), but \<^verbatim>\<open>save_file\<close> writes each row with \<^verbatim>\<open>%s\<close>, which
  stops at the first NUL. The file with the bytes \<^verbatim>\<open>a 00 b 0A\<close> is opened as the one line
  \<^verbatim>\<open>a 00 b\<close>, which has no line terminator in it; saved and opened again, the line is \<^verbatim>\<open>a\<close>.
\<close>

theorem nul_byte_cuts_saved_line:
  "rows (startup 256 ex_nul_fs (Some ''f'') None) = [[CHR ''a'', CHR 0x00, CHR ''b'']] \<and>
   rows (startup 256 (fst (save_file ex_nul_fs (startup 256 ex_nul_fs (Some ''f'') None)))
           (Some ''f'') None) = [''a'']"
proof -
  let ?E0 = "(init_editor None)\<lparr>filename := ''f''\<rparr>"
  have i: "rows (init_editor None) = []" by (simp add: init_editor_def get_window_size_def)
  have r1: "read_lines [CHR ''a'', CHR 0x00, CHR ''b'', CHR 0x0A] ?E0 =
        ?E0\<lparr>rows := [[CHR ''a'', CHR 0x00, CHR ''b'']], modified := True\<rparr>"
    using read_lines_step[of "[CHR ''a'', CHR 0x00, CHR ''b'']" "[]" ?E0]
    by (simp add: read_lines_eof i)
  have s1: "startup 256 ex_nul_fs (Some ''f'') None =
        ?E0\<lparr>rows := [[CHR ''a'', CHR 0x00, CHR ''b'']], modified := False,
            status_msg := ''Opened: f''\<rparr>"
    by (simp add: startup_def open_file_def ex_nul_fs_def r1 set_status_message_def)
  define fs1 where "fs1 = fst (save_file ex_nul_fs (startup 256 ex_nul_fs (Some ''f'') None))"
  have sv: "files fs1 ''f'' = Some [CHR ''a'', CHR 0x0A]"
    unfolding fs1_def s1 by (simp add: save_file_def written_def ex_nul_fs_def fprintf_line_def)
  have r2: "read_lines [CHR ''a'', CHR 0x0A] ?E0 = ?E0\<lparr>rows := [''a''], modified := True\<rparr>"
    using read_lines_step[of "''a''" "[]" ?E0] by (simp add: read_lines_eof i)
  have "rows (startup 256 fs1 (Some ''f'') None) = rows (read_lines [CHR ''a'', CHR 0x0A] ?E0)"
    by (simp add: startup_def rows_open_file[OF sv i])
  then have "rows (startup 256 fs1 (Some ''f'') None) = [''a'']" by (simp add: r2)
  then show ?thesis unfolding fs1_def by (simp add: s1)
qed

subsection \<open>C7: the viewport\<close>

text \<open>
  C7 as stated fails on a terminal of 2 rows (the size query checks the columns only): no
  row is visible, the second rule moves the row offset to 1, past the cursor on row 0, and
  the cursor is not inside the window.
\<close>

theorem no_view_on_two_row_terminal:
  "row_offset (editor_scroll ex_two_rows_terminal) = 1 \<and>
   cursor_y (editor_scroll ex_two_rows_terminal) = 0 \<and>
   \<not> (row_offset (editor_scroll ex_two_rows_terminal) \<le> cursor_y (editor_scroll ex_two_rows_terminal) \<and>
      cursor_y (editor_scroll ex_two_rows_terminal)
        < row_offset (editor_scroll ex_two_rows_terminal)
          + (screen_rows (editor_scroll ex_two_rows_terminal) - 2))"
  by (simp add: editor_scroll_def ex_two_rows_terminal_def init_editor_def get_window_size_def)

text \<open>
  C7, as amended. \<^verbatim>\<open>editor_scroll\<close> changes the two offsets only, by the rules of the
  specification with \<open>visible_rows = screen_rows - 2\<close> and \<open>visible_cols = screen_cols\<close>.
  When there is at least one visible row and one visible column, the cursor is then inside
  the window. When the cursor is inside the window already, nothing changes. With 3 visible
  rows, from the top of a document of at least 11 lines, ten Down keys, each after a
  refresh, bring the cursor to row 10, and the next refresh leaves the row offset at 8.
\<close>

theorem editor_scroll_follows_cursor:
  "editor_scroll E =
     E\<lparr>row_offset := fst (recompute_viewport (cursor_y E, cursor_x E) (row_offset E, col_offset E)
                           (screen_rows E) (screen_cols E)),
       col_offset := snd (recompute_viewport (cursor_y E, cursor_x E) (row_offset E, col_offset E)
                           (screen_rows E) (screen_cols E))\<rparr> \<and>
   (1 \<le> screen_rows E - 2 \<and> 1 \<le> screen_cols E \<longrightarrow>
      row_offset (editor_scroll E) \<le> cursor_y (editor_scroll E) \<and>
      cursor_y (editor_scroll E) < row_offset (editor_scroll E) + (screen_rows (editor_scroll E) - 2) \<and>
      col_offset (editor_scroll E) \<le> cursor_x (editor_scroll E) \<and>
      cursor_x (editor_scroll E) < col_offset (editor_scroll E) + screen_cols (editor_scroll E)) \<and>
   (row_offset E \<le> cursor_y E \<and> cursor_y E < row_offset E + (screen_rows E - 2) \<and>
    col_offset E \<le> cursor_x E \<and> cursor_x E < col_offset E + screen_cols E \<longrightarrow>
      editor_scroll E = E) \<and>
   (screen_rows E - 2 = 3 \<and> cursor_y E = 0 \<and> row_offset E = 0 \<and> 11 \<le> num_rows E \<longrightarrow>
      (\<exists>E'. running_state (main_loop (replicate 10 None) fs (concat (replicate 10 key_down)) E)
               = Some E' \<and>
            cursor_y E' = 10 \<and> row_offset (editor_scroll E') = 8))"
proof (intro conjI impI)
  show "editor_scroll E =
     E\<lparr>row_offset := fst (recompute_viewport (cursor_y E, cursor_x E) (row_offset E, col_offset E)
                           (screen_rows E) (screen_cols E)),
       col_offset := snd (recompute_viewport (cursor_y E, cursor_x E) (row_offset E, col_offset E)
                           (screen_rows E) (screen_cols E))\<rparr>"
    by (rule editor_scroll_eq)
next
  assume "1 \<le> screen_rows E - 2 \<and> 1 \<le> screen_cols E"
  then have a: "1 \<le> screen_rows E - 2" "1 \<le> screen_cols E" by simp_all
  note v = editor_scroll_in_view[OF a]
  show "row_offset (editor_scroll E) \<le> cursor_y (editor_scroll E)"
    using v(1) by (simp add: editor_scroll_fields)
  show "cursor_y (editor_scroll E) < row_offset (editor_scroll E) + (screen_rows (editor_scroll E) - 2)"
    using v(2) by (simp add: editor_scroll_fields)
  show "col_offset (editor_scroll E) \<le> cursor_x (editor_scroll E)"
    using v(3) by (simp add: editor_scroll_fields)
  show "cursor_x (editor_scroll E) < col_offset (editor_scroll E) + screen_cols (editor_scroll E)"
    using v(4) by (simp add: editor_scroll_fields)
next
  assume "row_offset E \<le> cursor_y E \<and> cursor_y E < row_offset E + (screen_rows E - 2) \<and>
    col_offset E \<le> cursor_x E \<and> cursor_x E < col_offset E + screen_cols E"
  then show "editor_scroll E = E" by (simp add: editor_scroll_unchanged)
next
  assume a: "screen_rows E - 2 = 3 \<and> cursor_y E = 0 \<and> row_offset E = 0 \<and> 11 \<le> num_rows E"
  then have p: "screen_rows E = 5" "0 \<le> cursor_y E" "row_offset E = max 0 (cursor_y E - 3)"
    "cursor_y E + int 10 < num_rows E" by simp_all
  from down_run[OF p, of fs "[]"] obtain E' where
    E': "main_loop (replicate 10 None) fs (concat (replicate 10 key_down)) E = Running fs [] E'"
      "cursor_y E' = cursor_y E + int 10" "row_offset E' = max 0 (cursor_y E' - 3)"
      "screen_rows E' = 5" by auto
  have "cursor_y E' = 10" using E'(2) a by simp
  moreover from this have "row_offset (editor_scroll E') = 8"
    using E'(3,4) by (simp add: editor_scroll_row_offset)
  moreover have "running_state (main_loop (replicate 10 None) fs (concat (replicate 10 key_down)) E)
               = Some E'" by (simp add: E'(1) running_state_def)
  ultimately show "\<exists>E'. running_state (main_loop (replicate 10 None) fs (concat (replicate 10 key_down)) E)
               = Some E' \<and> cursor_y E' = 10 \<and> row_offset (editor_scroll E') = 8"
    by blast
qed

text \<open>
  A cursor on row 10 of a 3-row window; the new editor, whose cursor is in view; and the
  ten Down keys on eleven lines.
\<close>

theorem editor_scroll_follows_cursor_witness:
  "(row_offset (editor_scroll ex_last_line) \<le> 10 \<and>
    10 < row_offset (editor_scroll ex_last_line) + 3) \<and>
   editor_scroll ex_new = ex_new \<and>
   (\<exists>E'. running_state (main_loop (replicate 10 None) ex_fs (concat (replicate 10 key_down))
               ex_eleven_lines) = Some E' \<and>
         cursor_y E' = 10 \<and> row_offset (editor_scroll E') = 8)"
proof (intro conjI)
  have h1: "1 \<le> screen_rows ex_last_line - 2 \<and> 1 \<le> screen_cols ex_last_line"
    by (simp add: ex_last_line_def ex_eleven_lines_def ex_new_def)
  have v1: "cursor_y (editor_scroll ex_last_line) = 10"
    "screen_rows (editor_scroll ex_last_line) = 5"
    by (simp_all add: editor_scroll_fields ex_last_line_def ex_eleven_lines_def ex_new_def)
  from editor_scroll_follows_cursor[of ex_last_line, THEN conjunct2, THEN conjunct1] h1
  show "row_offset (editor_scroll ex_last_line) \<le> 10"
    "10 < row_offset (editor_scroll ex_last_line) + 3"
    unfolding v1 by simp_all
  have h2: "row_offset ex_new \<le> cursor_y ex_new \<and>
    cursor_y ex_new < row_offset ex_new + (screen_rows ex_new - 2) \<and>
    col_offset ex_new \<le> cursor_x ex_new \<and> cursor_x ex_new < col_offset ex_new + screen_cols ex_new"
    by (simp add: ex_new_def)
  from editor_scroll_follows_cursor[of ex_new, THEN conjunct2, THEN conjunct2, THEN conjunct1] h2
  show "editor_scroll ex_new = ex_new" by simp
  have h3: "screen_rows ex_eleven_lines - 2 = 3 \<and> cursor_y ex_eleven_lines = 0 \<and>
    row_offset ex_eleven_lines = 0 \<and> 11 \<le> num_rows ex_eleven_lines"
    by (simp add: ex_eleven_lines_def ex_new_def)
  from editor_scroll_follows_cursor[of ex_eleven_lines ex_fs, THEN conjunct2, THEN conjunct2,
      THEN conjunct2] h3
  show "\<exists>E'. running_state (main_loop (replicate 10 None) ex_fs (concat (replicate 10 key_down))
               ex_eleven_lines) = Some E' \<and>
         cursor_y E' = 10 \<and> row_offset (editor_scroll E') = 8"
    by simp
qed

subsection \<open>C8: a save that fails\<close>

text \<open>
  C8 fails on the code. \<^verbatim>\<open>save_file\<close> checks that there is a file name and that the file
  opens, but not the results of \<^verbatim>\<open>fprintf\<close> and \<^verbatim>\<open>fclose\<close>. A modified document saved to a
  file that opens and then takes no byte is reported as saved: the file is left empty, the
  message is \<^verbatim>\<open>Saved: f\<close> and the dirty flag is cleared, although the save did not succeed.
  The editor goes on with the flag cleared.
\<close>

theorem write_error_reported_as_saved:
  "modified ex_named \<and> fwrite_limit ex_full_fs (filename ex_named) = Some 0 \<and>
   save_file ex_full_fs ex_named =
     (ex_full_fs\<lparr>files := [''f'' \<mapsto> []]\<rparr>,
      ex_named\<lparr>modified := False, status_msg := ''Saved: f''\<rparr>) \<and>
   process_keypress ex_full_fs [Some (CHR 0x13)] ex_named =
     Running (ex_full_fs\<lparr>files := [''f'' \<mapsto> []]\<rparr>) []
       (ex_named\<lparr>modified := False, status_msg := ''Saved: f''\<rparr>)"
proof -
  have f: "filename ex_named = ''f''" "modified ex_named"
    by (simp_all add: ex_named_def ex_new_def)
  have l: "fwrite_limit ex_full_fs ''f'' = Some 0" "fopen_w_error ex_full_fs ''f'' = None"
    "files ex_full_fs = Map.empty"
    by (simp_all add: ex_full_fs_def)
  have s: "save_file ex_full_fs ex_named =
     (ex_full_fs\<lparr>files := [''f'' \<mapsto> []]\<rparr>,
      ex_named\<lparr>modified := False, status_msg := ''Saved: f''\<rparr>)"
    by (simp add: save_file_def written_def set_status_message_def f l)
  have k: "process_keypress ex_full_fs [Some (CHR 0x13)] ex_named =
     Running (fst (save_file ex_full_fs ex_named)) [] (snd (save_file ex_full_fs ex_named))"
    by (rule save_key_continues)
  show ?thesis using f l s k by simp
qed

subsection \<open>C9: the status bar\<close>

text \<open>
  C9 fails on the code. \<^verbatim>\<open>draw_status_bar\<close> appends only 3 of the 4 bytes of
  \<^verbatim>\<open>ESC [ 7 m\<close>: the status bar starts with \<^verbatim>\<open>ESC [ 7\<close> and then the \<^verbatim>\<open>[\<close> of the file name
  field, never with the complete reverse-video directive. Here for the file \<^verbatim>\<open>a.txt\<close>,
  modified, on 16 columns.
\<close>

theorem status_bar_escape_cut_short:
  "draw_status_bar [] ex_status =
     Some ([CHR 0x1B, CHR ''['', CHR ''7''] @ ''[a.txt] *'' @ ''       ''
           @ [CHR 0x1B, CHR ''['', CHR ''m'', CHR 0x0D, CHR 0x0A])"
  by (simp add: draw_status_bar_def ex_status_def ex_new_def ab_append_def Let_def)

subsection \<open>C10: quit\<close>

text \<open>
  C10. In every editor state, with any file system and any further input, the byte 17
  (Ctrl-Q) makes \<^verbatim>\<open>process_keypress\<close>, and so the main loop, exit with status 0 at once:
  the file system is the one before the key, whatever the dirty flag, and no further input
  is read.
\<close>

theorem quit_exits_at_once:
  "process_keypress fs (Some (CHR 0x11) # inp) E = Exited 0 fs \<and>
   main_loop (rz # sched) fs (Some (CHR 0x11) # inp) E = Exited 0 fs"
  by (simp add: process_keypress_def read_key_def Let_def)

end
